theory Spec2Isabelle
  imports Main "HOL-Library.Multiset"
begin

section \<open>The paged collection client (spotify\_client.py)\<close>

text \<open>
  The network is a parameter of the model: a function from the request that
  \<^verbatim>\<open>requests.get\<close> sends to the reply it receives. Within one fetch every request has
  an offset of its own, so a function of the request describes any server. What the
  client prints when a request fails, and the requests it sends, are recorded as a list
  of events, in the order in which they happen. The progress lines (n/total fetched)
  are not recorded. A reply whose status lets it through is taken to carry a JSON object:
  a body that does not parse is not modelled.
\<close>

record request =
  item_type :: string
  time_range :: string
  limit :: int
  offset :: int

text \<open>
  The JSON object of a reply: the keys \<^verbatim>\<open>items\<close> and \<^verbatim>\<open>total\<close> may each
  be absent, and the source reads them with \<^verbatim>\<open>.get(key, default)\<close>.
\<close>

record 'a page =
  p_items :: "'a list option"
  p_total :: "int option"

datatype 'a reply = NoConnection | Response (reply_status: nat) (reply_body: 'a)

text \<open>
  A Python string that comes from the network is a list of Unicode code points.
  \<open>ascii\<close> makes such a string of a literal of the source.
\<close>

type_synonym pystr = "nat list"

definition ascii :: "string \<Rightarrow> pystr" where
  "ascii s = map of_char s"

text \<open>
  Python exceptions. \<^verbatim>\<open>SystemExit\<close> derives from \<^verbatim>\<open>BaseException\<close> only, so a
  handler \<^verbatim>\<open>except Exception\<close> does not catch it; the others derive from
  \<^verbatim>\<open>Exception\<close>. An \<^verbatim>\<open>HTTPError\<close> carries the status and the reason phrase of
  the reply, a \<^verbatim>\<open>ConnectionError\<close> the text that the transport gives it, a
  \<^verbatim>\<open>KeyError\<close> the key, a \<^verbatim>\<open>TypeError\<close> the name of the type that cannot be
  sliced. A \<^verbatim>\<open>UnicodeEncodeError\<close> is what \<^verbatim>\<open>str.encode\<close> raises for a character
  that the codec cannot encode.
\<close>

datatype exn =
    SystemExit int
  | HTTPError nat pystr
  | ConnectionError pystr
  | KeyError string
  | TypeError string
  | UnicodeEncodeError

fun is_Exception :: "exn \<Rightarrow> bool" where
  "is_Exception (SystemExit c) = False"
| "is_Exception (HTTPError s reason) = True"
| "is_Exception (ConnectionError text) = True"
| "is_Exception (KeyError k) = True"
| "is_Exception (TypeError ty) = True"
| "is_Exception UnicodeEncodeError = True"

datatype message =
    Msg401
  | Msg403
  | Msg429
  | MsgHTTP nat
  | MsgConnection

datatype event = Sent request | Printed message

fun sent_requests :: "event list \<Rightarrow> request list" where
  "sent_requests [] = []"
| "sent_requests (Sent r # evs) = r # sent_requests evs"
| "sent_requests (Printed m # evs) = sent_requests evs"

text \<open>
  \<^verbatim>\<open>response.raise_for_status()\<close> raises \<^verbatim>\<open>HTTPError\<close> for the status codes
  400 to 599.
\<close>

definition raise_for_status :: "nat \<Rightarrow> bool" where
  "raise_for_status s = (400 \<le> s \<and> s < 600)"

text \<open>A reply that \<^verbatim>\<open>get_top_items\<close> returns to its caller: one with a status outside 400 to 599.\<close>

fun succeeds :: "'a reply \<Rightarrow> bool" where
  "succeeds NoConnection = False"
| "succeeds (Response s b) = (\<not> raise_for_status s)"

definition top_items_request :: "string \<Rightarrow> string \<Rightarrow> int \<Rightarrow> int \<Rightarrow> request" where
  "top_items_request it tr lim off =
     \<lparr>item_type = it, time_range = tr, limit = min lim 50, offset = off\<rparr>"

text \<open>
  The part of \<^verbatim>\<open>get_top_items\<close> after the request is sent: the reply is returned,
  or a message is printed and \<^verbatim>\<open>sys.exit(1)\<close> raises \<^verbatim>\<open>SystemExit(1)\<close>.
\<close>

definition status_message :: "nat \<Rightarrow> message" where
  "status_message s =
     (if s = 401 then Msg401
      else if s = 403 then Msg403
      else if s = 429 then Msg429
      else MsgHTTP s)"

fun handle_reply :: "'a reply \<Rightarrow> event list \<times> (exn + 'a)" where
  "handle_reply NoConnection = ([Printed MsgConnection], Inl (SystemExit 1))"
| "handle_reply (Response s body) =
     (if raise_for_status s then ([Printed (status_message s)], Inl (SystemExit 1))
      else ([], Inr body))"

definition get_top_items ::
  "(request \<Rightarrow> 'a page reply) \<Rightarrow> string \<Rightarrow> string \<Rightarrow> int \<Rightarrow> int \<Rightarrow> event list \<times> (exn + 'a page)" where
  "get_top_items http it tr lim off =
     (let req = top_items_request it tr lim off;
          (out, res) = handle_reply (http req)
      in (Sent req # out, res))"

text \<open>
  \<^verbatim>\<open>range(start, stop, step)\<close> for a positive step, the only kind the source uses
  (\<^verbatim>\<open>range(50, total, 50)\<close>).
\<close>

function py_range :: "int \<Rightarrow> int \<Rightarrow> int \<Rightarrow> int list" where
  "py_range start stop step =
     (if 0 < step \<and> start < stop then start # py_range (start + step) stop step else [])"
  by pat_completeness auto
termination
  by (relation "measure (\<lambda>(start, stop, step). nat (stop - start))") auto

declare py_range.simps [simp del]

text \<open>The slice \<^verbatim>\<open>xs[:n]\<close>: a negative \<open>n\<close> counts from the end of the list.\<close>

definition py_slice_to :: "'a list \<Rightarrow> int \<Rightarrow> 'a list" where
  "py_slice_to xs n =
     (if 0 \<le> n then take (nat n) xs else take (nat (int (length xs) + n)) xs)"

definition get_items :: "'a page \<Rightarrow> 'a list" where
  "get_items d = (case p_items d of None \<Rightarrow> [] | Some xs \<Rightarrow> xs)"

definition get_total :: "'a page \<Rightarrow> int" where
  "get_total d = (case p_total d of None \<Rightarrow> 0 | Some t \<Rightarrow> t)"

text \<open>
  \<^verbatim>\<open>if max_items: total = min(total, max_items)\<close>: \<^verbatim>\<open>None\<close> and 0 are both false
  in Python, so neither caps the total.
\<close>

fun cap_total :: "int \<Rightarrow> int option \<Rightarrow> int" where
  "cap_total tot None = tot"
| "cap_total tot (Some m) = (if m \<noteq> 0 then min tot m else tot)"

text \<open>
  The sequential loop over the remaining offsets. A failing request raises
  \<^verbatim>\<open>SystemExit\<close> out of the loop, so no later offset is requested.
\<close>

fun fetch_sequential ::
  "(request \<Rightarrow> 'a page reply) \<Rightarrow> string \<Rightarrow> string \<Rightarrow> int \<Rightarrow> int list \<Rightarrow> 'a list
     \<Rightarrow> event list \<times> (exn + 'a list)" where
  "fetch_sequential http it tr tot [] all_items = ([], Inr all_items)"
| "fetch_sequential http it tr tot (off # offs) all_items =
     (case get_top_items http it tr (min 50 (tot - off)) off of
        (ev, Inl e) \<Rightarrow> (ev, Inl e)
      | (ev, Inr data) \<Rightarrow>
          (let (ev', r) = fetch_sequential http it tr tot offs (all_items @ get_items data)
           in (ev @ ev', r)))"

text \<open>
  The thread pool of the parallel path. \<^verbatim>\<open>ThreadPoolExecutor(max_workers=n)\<close> runs
  at most \<open>n\<close> submitted calls at a time and starts the queued ones in the order of
  submission, each as soon as a worker is free. A task is the pair (limit, offset) that
  \<^verbatim>\<open>executor.submit\<close> passes to \<^verbatim>\<open>get_top_items\<close>; a running task has sent its
  request and waits for the reply. Which running task finishes next is not determined by
  the program: the schedule gives, for each completion in turn, an index into the running
  tasks (taken modulo their number, 0 when the schedule is used up). A worker catches
  every exception of its call, \<^verbatim>\<open>SystemExit\<close> included, and stores it in the future,
  and leaving the \<^verbatim>\<open>with\<close> block waits for all submitted calls: the pool always runs
  every task. The result lists the futures in the order of completion, each with its
  offset, as \<^verbatim>\<open>as_completed\<close> yields them.
\<close>

type_synonym task = "int \<times> int"

function pool_run ::
  "(request \<Rightarrow> 'a page reply) \<Rightarrow> string \<Rightarrow> string \<Rightarrow> nat \<Rightarrow> nat list \<Rightarrow> task list \<Rightarrow> task list
     \<Rightarrow> event list \<times> (int \<times> (exn + 'a page)) list" where
  "pool_run http it tr workers sched running queued =
     (if queued \<noteq> [] \<and> length running < workers then
        (let (ev, fin) = pool_run http it tr workers sched (running @ [hd queued]) (tl queued)
         in (Sent (top_items_request it tr (fst (hd queued)) (snd (hd queued))) # ev, fin))
      else if running = [] then ([], [])
      else
        (let i = (case sched of [] \<Rightarrow> 0 | k # _ \<Rightarrow> k mod length running);
             (lim, off) = running ! i;
             (out, res) = handle_reply (http (top_items_request it tr lim off));
             (ev, fin) = pool_run http it tr workers (tl sched)
                           (take i running @ drop (Suc i) running) queued
         in (out @ ev, (off, res) # fin)))"
  by pat_completeness auto
termination
proof (relation "measure (\<lambda>(http, it, tr, workers, sched, running, queued).
                   length running + 2 * length queued)", goal_cases)
  case 1
  show ?case by simp
next
  case (2 http it tr workers sched running queued)
  then show ?case by (cases queued) simp_all
next
  case (3 http it tr workers sched running queued i)
  then have "i < length running"
    by (cases sched) simp_all
  then show ?case by simp
qed

declare pool_run.simps [simp del]

text \<open>
  The loop over \<^verbatim>\<open>as_completed\<close>: \<^verbatim>\<open>future.result()\<close> returns the page or raises
  what the call raised. The handler \<^verbatim>\<open>except Exception\<close> reports the offset and goes
  on; an exception that is not an \<^verbatim>\<open>Exception\<close> leaves the loop.
\<close>

fun collect ::
  "(int \<times> (exn + 'a page)) list \<Rightarrow> 'a list \<Rightarrow> int list \<Rightarrow> int list \<times> (exn + 'a list)" where
  "collect [] all_items failed = (failed, Inr all_items)"
| "collect ((off, Inr data) # rest) all_items failed =
     collect rest (all_items @ get_items data) failed"
| "collect ((off, Inl e) # rest) all_items failed =
     (if is_Exception e then collect rest all_items (failed @ [off]) else (failed, Inl e))"

text \<open>
  What a call of \<^verbatim>\<open>get_all_top_items\<close> does: the events of the network and of the
  failing requests, the offsets reported as failed by the handler of the parallel loop,
  and the list returned or the exception raised.
\<close>

record 'a outcome =
  trace :: "event list"
  soft_failures :: "int list"
  result :: "exn + 'a list"

definition get_all_top_items ::
  "(request \<Rightarrow> 'a page reply) \<Rightarrow> nat list \<Rightarrow> string \<Rightarrow> string \<Rightarrow> int option \<Rightarrow> bool
     \<Rightarrow> 'a outcome" where
  "get_all_top_items http sched it tr max_items parallel =
     (case get_top_items http it tr 50 0 of
        (ev0, Inl e) \<Rightarrow> \<lparr>trace = ev0, soft_failures = [], result = Inl e\<rparr>
      | (ev0, Inr first_data) \<Rightarrow>
          (let all_items = get_items first_data;
               tot = cap_total (get_total first_data) max_items;
               remaining = tot - int (length all_items)
           in if remaining \<le> 0 then \<lparr>trace = ev0, soft_failures = [], result = Inr all_items\<rparr>
              else
                (let offsets = py_range 50 tot 50 in
                 if \<not> parallel \<or> length offsets = 0 then
                   (case fetch_sequential http it tr tot offsets all_items of
                      (ev, Inl e) \<Rightarrow> \<lparr>trace = ev0 @ ev, soft_failures = [], result = Inl e\<rparr>
                    | (ev, Inr xs) \<Rightarrow>
                        \<lparr>trace = ev0 @ ev, soft_failures = [],
                         result = Inr (py_slice_to xs tot)\<rparr>)
                 else
                   (let (ev, completed) =
                          pool_run http it tr 10 sched []
                            (map (\<lambda>off. (min 50 (tot - off), off)) offsets)
                    in (case collect completed all_items [] of
                          (failed, Inl e) \<Rightarrow>
                            \<lparr>trace = ev0 @ ev, soft_failures = failed, result = Inl e\<rparr>
                        | (failed, Inr xs) \<Rightarrow>
                            \<lparr>trace = ev0 @ ev, soft_failures = failed,
                             result = Inr (py_slice_to xs tot)\<rparr>)))))"

text \<open>
  A trace in which no request is sent after the message of a 401 has been printed.
\<close>

fun no_request_after_401 :: "event list \<Rightarrow> bool" where
  "no_request_after_401 [] = True"
| "no_request_after_401 (Printed Msg401 # evs) = (sent_requests evs = [])"
| "no_request_after_401 (e # evs) = no_request_after_401 evs"

text \<open>
  Names for the statements below: the request that a task of the pool sends, the future
  it leaves (its offset, with the page returned or the exception raised), and the tasks and
  requests of the pages after the first.
\<close>

definition task_request :: "string \<Rightarrow> string \<Rightarrow> task \<Rightarrow> request" where
  "task_request it tr t = top_items_request it tr (fst t) (snd t)"

definition task_future :: "(request \<Rightarrow> 'a page reply) \<Rightarrow> string \<Rightarrow> string \<Rightarrow> task \<Rightarrow> int \<times> (exn + 'a page)" where
  "task_future http it tr t = (snd t, snd (handle_reply (http (task_request it tr t))))"

definition page_tasks :: "int \<Rightarrow> task list" where
  "page_tasks tot = map (\<lambda>off. (min 50 (tot - off), off)) (py_range 50 tot 50)"

definition page_requests :: "string \<Rightarrow> string \<Rightarrow> int \<Rightarrow> request list" where
  "page_requests it tr tot =
     map (\<lambda>off. top_items_request it tr (min 50 (tot - off)) off) (py_range 50 tot 50)"

text \<open>
  Two servers for concrete runs: one that holds the items \<open>0, \<dots>, n - 1\<close> and serves
  every page of them, and one that answers a fixed reply to the requests that satisfy a
  predicate.
\<close>

definition library_server :: "nat \<Rightarrow> request \<Rightarrow> nat page reply" where
  "library_server n req =
     Response 200 \<lparr>p_items = Some (take (nat (limit req)) (drop (nat (offset req)) [0..<n])),
                   p_total = Some (int n)\<rparr>"

definition failing_where ::
  "(request \<Rightarrow> bool) \<Rightarrow> 'a reply \<Rightarrow> (request \<Rightarrow> 'a reply) \<Rightarrow> request \<Rightarrow> 'a reply" where
  "failing_where P r http req = (if P req then r else http req)"

section \<open>The credential lifecycle (spotify\_auth.py)\<close>

text \<open>
  A JSON value of a token record, and a token record as Python holds it: a dictionary,
  here the list of its keys and values in insertion order. \<open>JNull\<close> is also Python's
  \<^verbatim>\<open>None\<close>.
\<close>

datatype jval = JNull | JStr string | JInt int

type_synonym tokens = "(string \<times> jval) list"

text \<open>\<^verbatim>\<open>d.get(k)\<close>, \<^verbatim>\<open>d.get(k, default)\<close> and \<^verbatim>\<open>d[k] = v\<close>.\<close>

definition dict_get :: "tokens \<Rightarrow> string \<Rightarrow> jval" where
  "dict_get d k = (case map_of d k of None \<Rightarrow> JNull | Some v \<Rightarrow> v)"

definition dict_get_default :: "tokens \<Rightarrow> string \<Rightarrow> jval \<Rightarrow> jval" where
  "dict_get_default d k dflt = (case map_of d k of None \<Rightarrow> dflt | Some v \<Rightarrow> v)"

fun dict_set :: "tokens \<Rightarrow> string \<Rightarrow> jval \<Rightarrow> tokens" where
  "dict_set [] k v = [(k, v)]"
| "dict_set ((k', v') # d) k v = (if k' = k then (k, v) # d else (k', v') # dict_set d k v)"

text \<open>Python's truth value of a value, and \<^verbatim>\<open>a or b\<close>.\<close>

fun truthy :: "jval \<Rightarrow> bool" where
  "truthy JNull = False"
| "truthy (JStr s) = (s \<noteq> [])"
| "truthy (JInt n) = (n \<noteq> 0)"

definition py_or :: "jval \<Rightarrow> jval \<Rightarrow> jval" where
  "py_or a b = (if truthy a then a else b)"

text \<open>\<^verbatim>\<open>os.getenv(name)\<close>: the string, or \<^verbatim>\<open>None\<close> when the variable is not set.\<close>

fun os_getenv :: "string option \<Rightarrow> jval" where
  "os_getenv None = JNull"
| "os_getenv (Some s) = JStr s"

record environment =
  SPOTIFY_CLIENT_ID :: "string option"
  SPOTIFY_CLIENT_SECRET :: "string option"
  SPOTIFY_REFRESH_TOKEN :: "string option"

text \<open>
  The two requests to the token endpoint. The endpoint is a parameter: a function from
  the requests posted so far and the request posted now to the reply, so that a server
  may answer the same request differently the second time. A reply is a transport failure
  with the text of its exception, or a status, a reason phrase and a JSON object. The
  Basic authorization header is fixed by the client id and secret and is not recorded.
\<close>

datatype grant = AuthorizationCode pystr | RefreshToken jval

datatype token_reply = Unreachable pystr | Answered nat pystr tokens

text \<open>A reply that \<^verbatim>\<open>raise_for_status\<close> lets through.\<close>

fun accepted :: "token_reply \<Rightarrow> bool" where
  "accepted (Unreachable text) = False"
| "accepted (Answered s reason b) = (\<not> raise_for_status s)"

datatype callback_response =
    Page200
  | Error500 exn
  | Error400Authentication pystr
  | Error400Invalid

text \<open>
  The state that the authentication code reads and writes: the token file (\<open>None\<close>
  when it does not exist), the requests posted to the token endpoint, the authorization
  URLs opened in the browser (each as its list of query parameters), the responses the
  callback handler has sent, and the flag of the callback server. The file system, the
  loopback socket and the standard output are taken to work: the token file, when it
  exists, holds a JSON object, and writing the file, binding the port, writing to the
  socket and printing do not fail.
\<close>

record world =
  token_file :: "tokens option"
  posted :: "grant list"
  opened :: "(string \<times> string) list list"
  responded :: "callback_response list"
  should_stop :: bool

definition TOKEN_URL :: string where
  "TOKEN_URL = ''https://accounts.spotify.com/api/token''"

definition REDIRECT_URI :: string where
  "REDIRECT_URI = ''http://127.0.0.1:8888/callback''"

definition SCOPE :: string where
  "SCOPE = ''user-top-read user-read-private user-read-email''"

definition get_auth_url :: "string \<Rightarrow> (string \<times> string) list" where
  "get_auth_url cid =
     [(''client_id'', cid), (''response_type'', ''code''), (''redirect_uri'', REDIRECT_URI),
      (''scope'', SCOPE), (''show_dialog'', ''true'')]"

definition post_token ::
  "(grant list \<Rightarrow> grant \<Rightarrow> token_reply) \<Rightarrow> grant \<Rightarrow> world \<Rightarrow> (exn + tokens) \<times> world" where
  "post_token endpoint g w =
     (let w' = w\<lparr>posted := posted w @ [g]\<rparr> in
      case endpoint (posted w) g of
        Unreachable text \<Rightarrow> (Inl (ConnectionError text), w')
      | Answered s reason b \<Rightarrow>
          if raise_for_status s then (Inl (HTTPError s reason), w') else (Inr b, w'))"

definition get_tokens_from_code ::
  "(grant list \<Rightarrow> grant \<Rightarrow> token_reply) \<Rightarrow> pystr \<Rightarrow> world \<Rightarrow> (exn + tokens) \<times> world" where
  "get_tokens_from_code endpoint code w = post_token endpoint (AuthorizationCode code) w"

definition refresh_access_token ::
  "(grant list \<Rightarrow> grant \<Rightarrow> token_reply) \<Rightarrow> jval \<Rightarrow> world \<Rightarrow> (exn + tokens) \<times> world" where
  "refresh_access_token endpoint refresh_tok w = post_token endpoint (RefreshToken refresh_tok) w"

text \<open>
  \<^verbatim>\<open>save_tokens\<close> adds \<^verbatim>\<open>expires_at\<close> to the dictionary it is given (the caller
  sees the change) and writes the dictionary to the file.
\<close>

definition save_tokens :: "tokens \<Rightarrow> world \<Rightarrow> tokens \<times> world" where
  "save_tokens toks w =
     (let toks' = dict_set toks ''expires_at'' (dict_get_default toks ''expires_in'' (JInt 3600))
      in (toks', w\<lparr>token_file := Some toks'\<rparr>))"

definition load_tokens :: "world \<Rightarrow> tokens" where
  "load_tokens w = (case token_file w of None \<Rightarrow> [] | Some toks \<Rightarrow> toks)"

text \<open>
  The two lines that print the first 20 characters of the tokens:
  \<^verbatim>\<open>tokens['access_token'][:20]\<close> raises \<^verbatim>\<open>KeyError\<close> when the key is absent and
  \<^verbatim>\<open>TypeError\<close> when the value is not a string; the refresh token is printed only
  when its key is present.
\<close>

fun slice20 :: "jval \<Rightarrow> exn + unit" where
  "slice20 (JStr s) = Inr ()"
| "slice20 JNull = Inl (TypeError ''NoneType'')"
| "slice20 (JInt n) = Inl (TypeError ''int'')"

definition print_tokens :: "tokens \<Rightarrow> exn + unit" where
  "print_tokens toks =
     (case map_of toks ''access_token'' of
        None \<Rightarrow> Inl (KeyError ''access_token'')
      | Some a \<Rightarrow>
          (case slice20 a of
             Inl e \<Rightarrow> Inl e
           | Inr u \<Rightarrow>
               (case map_of toks ''refresh_token'' of
                  None \<Rightarrow> Inr ()
                | Some r \<Rightarrow> slice20 r)))"

text \<open>
  The text \<^verbatim>\<open>str(e)\<close> of the exceptions that the \<^verbatim>\<open>try\<close> block of the callback
  handler can raise. The text of an \<^verbatim>\<open>HTTPError\<close> is the one that
  \<^verbatim>\<open>raise_for_status\<close> builds from the status, the reason phrase and the URL; the text
  of a \<^verbatim>\<open>KeyError\<close> is the key in quotes (code point 39). A
  \<^verbatim>\<open>UnicodeEncodeError\<close> is raised by \<^verbatim>\<open>send_error\<close> only, outside the
  \<^verbatim>\<open>try\<close> block or inside its handler: its text is never taken, and is left open.
\<close>

function digits :: "nat \<Rightarrow> pystr" where
  "digits n = (if n < 10 then [48 + n] else digits (n div 10) @ [48 + n mod 10])"
  by pat_completeness auto
termination
  by (relation "measure (\<lambda>n. n)") auto

declare digits.simps [simp del]

fun str_exn :: "exn \<Rightarrow> pystr" where
  "str_exn (HTTPError s reason) =
     digits s @ ascii (if s < 500 then '' Client Error: '' else '' Server Error: '') @ reason @
     ascii '' for url: '' @ ascii TOKEN_URL"
| "str_exn (ConnectionError text) = text"
| "str_exn (KeyError k) = [39] @ ascii k @ [39]"
| "str_exn (TypeError ty) = [39] @ ascii ty @ [39] @ ascii '' object is not subscriptable''"
| "str_exn (SystemExit c) = (if c < 0 then 45 # digits (nat (- c)) else digits (nat c))"

text \<open>
  \<^verbatim>\<open>send_error(code, message)\<close> of \<^verbatim>\<open>BaseHTTPRequestHandler\<close>: the message goes
  into the status line, which is encoded with \<^verbatim>\<open>.encode('latin-1', 'strict')\<close>. A
  message with a code point above 255 raises \<^verbatim>\<open>UnicodeEncodeError\<close> there, before
  anything is written. For a request of version HTTP/0.9 no status line and no header is
  built, and the error page is written with its text encoded as UTF-8, which cannot fail.
\<close>

definition latin1 :: "pystr \<Rightarrow> bool" where
  "latin1 s = list_all (\<lambda>c. c < 256) s"

definition send_error :: "bool \<Rightarrow> callback_response \<Rightarrow> pystr \<Rightarrow> world \<Rightarrow> exn + world" where
  "send_error v09 response message w =
     (if v09 \<or> latin1 message then Inr (w\<lparr>responded := responded w @ [response]\<rparr>)
      else Inl UnicodeEncodeError)"

text \<open>
  The callback handler. A request is its HTTP version (HTTP/0.9 or later) and the
  dictionary that \<^verbatim>\<open>parse_qs\<close> makes of the query string, each key with the first of its
  values (\<^verbatim>\<open>parse_qs\<close> gives no key an empty list, and decodes percent escapes as
  UTF-8, so a value may hold any code point). Only GET requests with a path that
  \<^verbatim>\<open>urlparse\<close> accepts are listed: no other request reaches the conditional of
  \<^verbatim>\<open>do_GET\<close>. Every exception that the \<^verbatim>\<open>try\<close> block can raise derives from
  \<^verbatim>\<open>Exception\<close>, so the handler catches all of them: it answers 500 and leaves the
  flag as it is. The result is the exception that leaves \<^verbatim>\<open>do_GET\<close>, if any, and the
  state: a \<^verbatim>\<open>UnicodeEncodeError\<close> of \<^verbatim>\<open>send_error\<close> is raised outside the
  \<^verbatim>\<open>try\<close> block, or inside its handler, and so leaves \<^verbatim>\<open>do_GET\<close> at once.
\<close>

record callback =
  version09 :: bool
  query :: "(string \<times> pystr) list"

definition except_Exception :: "bool \<Rightarrow> exn \<Rightarrow> world \<Rightarrow> exn option \<times> world" where
  "except_Exception v09 e w =
     (case send_error v09 (Error500 e) (ascii ''Error: '' @ str_exn e) w of
        Inl x \<Rightarrow> (Some x, w)
      | Inr w1 \<Rightarrow> (None, w1))"

definition do_GET ::
  "(grant list \<Rightarrow> grant \<Rightarrow> token_reply) \<Rightarrow> callback \<Rightarrow> world \<Rightarrow> exn option \<times> world" where
  "do_GET endpoint r w =
     (case map_of (query r) ''code'' of
        Some code \<Rightarrow>
          (case get_tokens_from_code endpoint code w of
             (Inl e, w1) \<Rightarrow> except_Exception (version09 r) e w1
           | (Inr toks, w1) \<Rightarrow>
               (let (toks', w2) = save_tokens toks w1;
                    w3 = w2\<lparr>responded := responded w2 @ [Page200]\<rparr>
                in case print_tokens toks' of
                     Inl e \<Rightarrow> except_Exception (version09 r) e w3
                   | Inr u \<Rightarrow> (None, w3\<lparr>should_stop := True\<rparr>)))
      | None \<Rightarrow>
          (case map_of (query r) ''error'' of
             Some err \<Rightarrow>
               (case send_error (version09 r) (Error400Authentication err)
                       (ascii ''Authentication error: '' @ err) w of
                  Inl x \<Rightarrow> (Some x, w)
                | Inr w1 \<Rightarrow> (None, w1\<lparr>should_stop := True\<rparr>))
           | None \<Rightarrow>
               (case send_error (version09 r) Error400Invalid (ascii ''Invalid callback'') w of
                  Inl x \<Rightarrow> (Some x, w)
                | Inr w1 \<Rightarrow> (None, w1))))"

text \<open>
  The accept loop \<^verbatim>\<open>while not self.should_stop: self.handle_request()\<close>, over the
  requests that arrive. \<^verbatim>\<open>handle_request\<close> blocks until a request arrives: when the
  requests are used up and the flag is still unset, the loop waits forever. An exception
  that leaves \<^verbatim>\<open>do_GET\<close> is an \<^verbatim>\<open>Exception\<close>: \<^verbatim>\<open>handle_request\<close> reports it
  and returns, so the loop goes on from the state that \<^verbatim>\<open>do_GET\<close> left.
\<close>

datatype served = Stopped world "callback list" | Waiting world

fun serve_forever ::
  "(grant list \<Rightarrow> grant \<Rightarrow> token_reply) \<Rightarrow> callback list \<Rightarrow> world \<Rightarrow> served" where
  "serve_forever endpoint [] w = (if should_stop w then Stopped w [] else Waiting w)"
| "serve_forever endpoint (r # rs) w =
     (if should_stop w then Stopped w (r # rs)
      else serve_forever endpoint rs (snd (do_GET endpoint r w)))"

definition start_auth_flow ::
  "(grant list \<Rightarrow> grant \<Rightarrow> token_reply) \<Rightarrow> string \<Rightarrow> callback list \<Rightarrow> world \<Rightarrow> served" where
  "start_auth_flow endpoint cid requests w =
     serve_forever endpoint requests
       (w\<lparr>opened := opened w @ [get_auth_url cid], should_stop := False\<rparr>)"

text \<open>
  The body of the \<^verbatim>\<open>try\<close> block of \<^verbatim>\<open>get_valid_token\<close>: the value returned or
  the exception raised, and the state after it. Every exception it can raise derives from
  \<^verbatim>\<open>Exception\<close>, so the handler of \<^verbatim>\<open>get_valid_token\<close> catches all of them and
  goes on to the interactive flow.
\<close>

definition refresh_block ::
  "(grant list \<Rightarrow> grant \<Rightarrow> token_reply) \<Rightarrow> jval \<Rightarrow> tokens \<Rightarrow> world \<Rightarrow> (exn + jval) \<times> world" where
  "refresh_block endpoint refresh_token toks w =
     (case (if truthy refresh_token then Inr refresh_token
            else (case map_of toks ''refresh_token'' of
                    None \<Rightarrow> Inl (KeyError ''refresh_token'')
                  | Some v \<Rightarrow> Inr v)) of
        Inl e \<Rightarrow> (Inl e, w)
      | Inr refresh_tok \<Rightarrow>
          (case refresh_access_token endpoint refresh_tok w of
             (Inl e, w1) \<Rightarrow> (Inl e, w1)
           | (Inr new_tokens, w1) \<Rightarrow>
               (let new_tokens1 =
                      (if map_of new_tokens ''refresh_token'' = None
                       then dict_set new_tokens ''refresh_token'' refresh_tok
                       else new_tokens);
                    (new_tokens2, w2) = save_tokens new_tokens1 w1
                in case map_of new_tokens2 ''access_token'' of
                     None \<Rightarrow> (Inl (KeyError ''access_token''), w2)
                   | Some a \<Rightarrow> (Inr a, w2))))"

text \<open>
  \<^verbatim>\<open>get_valid_token\<close> returns a value, or never returns because the callback server
  waits forever.
\<close>

datatype run = Returned jval world | Blocked world

text \<open>
  The end of \<^verbatim>\<open>get_valid_token\<close>: the interactive flow, then the access token of the
  token file as it then is (\<^verbatim>\<open>None\<close> when the file has none).
\<close>

definition interactive ::
  "(grant list \<Rightarrow> grant \<Rightarrow> token_reply) \<Rightarrow> string \<Rightarrow> callback list \<Rightarrow> world \<Rightarrow> run" where
  "interactive endpoint cid requests w =
     (case start_auth_flow endpoint cid requests w of
        Waiting w' \<Rightarrow> Blocked w'
      | Stopped w' rest \<Rightarrow> Returned (dict_get (load_tokens w') ''access_token'') w')"

definition get_valid_token ::
  "(grant list \<Rightarrow> grant \<Rightarrow> token_reply) \<Rightarrow> environment \<Rightarrow> callback list \<Rightarrow> world \<Rightarrow> run" where
  "get_valid_token endpoint env requests w =
     (let client_id = os_getenv (SPOTIFY_CLIENT_ID env);
          client_secret = os_getenv (SPOTIFY_CLIENT_SECRET env);
          refresh_token = os_getenv (SPOTIFY_REFRESH_TOKEN env)
      in if \<not> truthy client_id \<or> \<not> truthy client_secret then Returned JNull w
         else
           (let cid = (case SPOTIFY_CLIENT_ID env of None \<Rightarrow> [] | Some s \<Rightarrow> s);
                toks = load_tokens w
            in if truthy (py_or refresh_token (dict_get toks ''refresh_token'')) then
                 (case refresh_block endpoint refresh_token toks w of
                    (Inr a, w1) \<Rightarrow> Returned a w1
                  | (Inl e, w1) \<Rightarrow> interactive endpoint cid requests w1)
               else interactive endpoint cid requests w))"

text \<open>
  For concrete runs: a world in which nothing has happened yet, a token server that accepts
  the code \<^verbatim>\<open>good\<close> and the refresh token \<^verbatim>\<open>R1\<close> only (its refresh reply carries
  no refresh token), an environment with the client's credentials and no refresh token,
  a world whose token file holds a given refresh token, a callback of a version after
  HTTP/0.9, and a token server whose replies are accepted but carry no access token.
\<close>

definition fresh_world :: world where
  "fresh_world = \<lparr>token_file = None, posted = [], opened = [], responded = [], should_stop = False\<rparr>"

definition token_server :: "grant list \<Rightarrow> grant \<Rightarrow> token_reply" where
  "token_server history g =
     (case g of
        AuthorizationCode c \<Rightarrow>
          if c = ascii ''good''
          then Answered 200 (ascii ''OK'')
                 [(''access_token'', JStr ''A1''), (''refresh_token'', JStr ''R1''),
                  (''expires_in'', JInt 3600)]
          else Answered 400 (ascii ''Bad Request'') []
      | RefreshToken r \<Rightarrow>
          if r = JStr ''R1''
          then Answered 200 (ascii ''OK'')
                 [(''access_token'', JStr ''A2''), (''expires_in'', JInt 3600)]
          else Answered 400 (ascii ''Bad Request'') [])"

definition configured :: environment where
  "configured = \<lparr>SPOTIFY_CLIENT_ID = Some ''id'', SPOTIFY_CLIENT_SECRET = Some ''secret'',
                  SPOTIFY_REFRESH_TOKEN = None\<rparr>"

definition holding :: "string \<Rightarrow> world" where
  "holding r = fresh_world\<lparr>token_file :=
     Some [(''access_token'', JStr ''A0''), (''refresh_token'', JStr r)]\<rparr>"

definition GET :: "(string \<times> pystr) list \<Rightarrow> callback" where
  "GET q = \<lparr>version09 = False, query = q\<rparr>"

definition expiry_only :: "grant list \<Rightarrow> grant \<Rightarrow> token_reply" where
  "expiry_only history g = Answered 200 (ascii ''OK'') [(''expires_in'', JInt 60)]"

section \<open>Properties of a single page request\<close>

lemma sent_requests_append: "sent_requests (xs @ ys) = sent_requests xs @ sent_requests ys"
  by (induction xs rule: sent_requests.induct) simp_all

lemma sent_requests_handle_reply: "sent_requests (fst (handle_reply r)) = []"
  by (cases r) simp_all

lemma get_top_items_sent:
  "sent_requests (fst (get_top_items http it tr lim off)) = [top_items_request it tr lim off]"
  by (simp add: get_top_items_def Let_def split_beta sent_requests_handle_reply)

lemma get_top_items_ok:
  "http (top_items_request it tr lim off) = Response s p \<Longrightarrow> \<not> raise_for_status s \<Longrightarrow>
   get_top_items http it tr lim off = ([Sent (top_items_request it tr lim off)], Inr p)"
  by (simp add: get_top_items_def)

lemma get_top_items_no_connection:
  "http (top_items_request it tr lim off) = NoConnection \<Longrightarrow>
   get_top_items http it tr lim off =
     ([Sent (top_items_request it tr lim off), Printed MsgConnection], Inl (SystemExit 1))"
  by (simp add: get_top_items_def)

lemma get_top_items_status:
  "http (top_items_request it tr lim off) = Response s p \<Longrightarrow> raise_for_status s \<Longrightarrow>
   get_top_items http it tr lim off =
     ([Sent (top_items_request it tr lim off), Printed (status_message s)], Inl (SystemExit 1))"
  by (simp add: get_top_items_def)

lemma handle_reply_exn: "snd (handle_reply r) = Inl e \<Longrightarrow> e = SystemExit 1"
  by (cases r) (auto split: if_splits)

lemma get_top_items_exn: "get_top_items http it tr lim off = (ev, Inl e) \<Longrightarrow> e = SystemExit 1"
  by (auto simp: get_top_items_def Let_def split_beta dest: handle_reply_exn)

text \<open>
  What \<^verbatim>\<open>get_top_items\<close> raises is never an \<^verbatim>\<open>Exception\<close>: the handler of the
  parallel loop cannot catch it.
\<close>

lemma get_top_items_not_Exception:
  "snd (get_top_items http it tr lim off) = Inl e \<Longrightarrow> \<not> is_Exception e"
  by (cases "get_top_items http it tr lim off") (auto dest: get_top_items_exn)

lemma py_range_empty: "stop \<le> start \<Longrightarrow> py_range start stop step = []"
  by (simp add: py_range.simps)

lemma py_range_step:
  "0 < step \<Longrightarrow> start < stop \<Longrightarrow> py_range start stop step = start # py_range (start + step) stop step"
  by (subst py_range.simps) simp

lemma early_return:
  assumes "http (top_items_request it tr 50 0) = Response s p" "\<not> raise_for_status s"
    and "cap_total (get_total p) max_items \<le> int (length (get_items p))"
  shows "get_all_top_items http sched it tr max_items parallel =
           \<lparr>trace = [Sent (top_items_request it tr 50 0)], soft_failures = [],
            result = Inr (get_items p)\<rparr>"
  using assms by (simp add: get_all_top_items_def get_top_items_ok Let_def)

lemma cap_total_le: "cap_total t m \<le> t"
  by (cases m) auto


lemma succeedsE: "succeeds r \<Longrightarrow> r = Response (reply_status r) (reply_body r) \<and> \<not> raise_for_status (reply_status r)"
  by (cases r) simp_all

lemma handle_reply_succeeds: "succeeds r \<Longrightarrow> handle_reply r = ([], Inr (reply_body r))"
  by (cases r) simp_all

lemma handle_reply_fails: "\<not> succeeds r \<Longrightarrow> snd (handle_reply r) = Inl (SystemExit 1)"
  by (cases r) simp_all

lemma get_top_items_succeeds:
  "succeeds (http (top_items_request it tr lim off)) \<Longrightarrow>
   get_top_items http it tr lim off =
     ([Sent (top_items_request it tr lim off)], Inr (reply_body (http (top_items_request it tr lim off))))"
  by (simp add: get_top_items_def Let_def handle_reply_succeeds)

lemma get_top_items_fails:
  "\<not> succeeds (http (top_items_request it tr lim off)) \<Longrightarrow>
   snd (get_top_items http it tr lim off) = Inl (SystemExit 1)"
  by (simp add: get_top_items_def Let_def split_beta handle_reply_fails)

lemma fetch_sequential_fails:
  "\<exists>off \<in> set offs. \<not> succeeds (http (top_items_request it tr (min 50 (tot - off)) off)) \<Longrightarrow>
   snd (fetch_sequential http it tr tot offs acc) = Inl (SystemExit 1)"
proof (induction offs arbitrary: acc)
  case Nil
  then show ?case by simp
next
  case (Cons off offs)
  show ?case
  proof (cases "succeeds (http (top_items_request it tr (min 50 (tot - off)) off))")
    case True
    with Cons.prems have "\<exists>off \<in> set offs. \<not> succeeds (http (top_items_request it tr (min 50 (tot - off)) off))"
      by auto
    from Cons.IH[OF this] True show ?thesis
      by (simp add: get_top_items_succeeds split_beta)
  next
    case False
    then have "snd (get_top_items http it tr (min 50 (tot - off)) off) = Inl (SystemExit 1)"
      by (simp add: get_top_items_fails)
    then show ?thesis
      by (cases "get_top_items http it tr (min 50 (tot - off)) off") simp
  qed
qed

lemma fetch_sequential_succeeds:
  "\<forall>off \<in> set offs. succeeds (http (top_items_request it tr (min 50 (tot - off)) off)) \<Longrightarrow>
   fetch_sequential http it tr tot offs acc =
     (map (\<lambda>off. Sent (top_items_request it tr (min 50 (tot - off)) off)) offs,
      Inr (acc @ concat (map (\<lambda>off. get_items (reply_body (http (top_items_request it tr (min 50 (tot - off)) off)))) offs)))"
  by (induction offs arbitrary: acc) (simp_all add: get_top_items_succeeds)

lemma sent_requests_map_Sent: "sent_requests (map Sent rs) = rs"
  by (induction rs) simp_all

lemma sent_requests_map_Printed: "sent_requests (map Printed ms) = []"
  by (induction ms) simp_all

lemma get_top_items_shape:
  "\<exists>ms. fst (get_top_items http it tr lim off) = Sent (top_items_request it tr lim off) # map Printed ms \<and>
        (ms \<noteq> [] \<longrightarrow> isl (snd (get_top_items http it tr lim off)))"
proof (cases "http (top_items_request it tr lim off)")
  case NoConnection
  then show ?thesis
    by (intro exI[of _ "[MsgConnection]"]) (simp add: get_top_items_def)
next
  case (Response s p)
  then show ?thesis
    by (cases "raise_for_status s")
       (auto simp: get_top_items_def intro: exI[of _ "[status_message s]"] exI[of _ "[]"])
qed

lemma fetch_sequential_shape:
  "\<exists>rs ms. fst (fetch_sequential http it tr tot offs acc) = map Sent rs @ map Printed ms"
proof (induction offs arbitrary: acc)
  case Nil
  show ?case by (intro exI[of _ "[]"]) simp
next
  case (Cons off offs)
  obtain ms where ms: "fst (get_top_items http it tr (min 50 (tot - off)) off) =
      Sent (top_items_request it tr (min 50 (tot - off)) off) # map Printed ms"
    "ms \<noteq> [] \<longrightarrow> isl (snd (get_top_items http it tr (min 50 (tot - off)) off))"
    using get_top_items_shape by blast
  show ?case
  proof (cases "snd (get_top_items http it tr (min 50 (tot - off)) off)")
    case (Inl e)
    then have "fst (fetch_sequential http it tr tot (off # offs) acc) =
        map Sent [top_items_request it tr (min 50 (tot - off)) off] @ map Printed ms"
      using ms(1) by (cases "get_top_items http it tr (min 50 (tot - off)) off") simp
    then show ?thesis by blast
  next
    case (Inr p)
    with ms(2) have "ms = []" by auto
    obtain rs ms' where "fst (fetch_sequential http it tr tot offs (acc @ get_items p)) =
        map Sent rs @ map Printed ms'"
      using Cons.IH by blast
    then have "fst (fetch_sequential http it tr tot (off # offs) acc) =
        map Sent (top_items_request it tr (min 50 (tot - off)) off # rs) @ map Printed ms'"
      using ms(1) Inr \<open>ms = []\<close>
      by (cases "get_top_items http it tr (min 50 (tot - off)) off") (simp add: split_beta)
    then show ?thesis by blast
  qed
qed

lemma no_request_after_401_Printed: "no_request_after_401 (map Printed ms)"
proof (induction ms)
  case Nil
  show ?case by simp
next
  case (Cons m ms)
  then show ?case by (cases m) (simp_all add: sent_requests_map_Printed)
qed

text \<open>
  C10. Whatever limit the caller passes, \<^verbatim>\<open>get_top_items\<close> sends exactly one request, and
  the limit in it is the minimum of the caller's limit and 50: a limit above 50 goes out
  as 50, and a limit below 1 goes out unchanged. The call is not rejected: it does what
  the call with the clamped limit does.
\<close>

theorem get_top_items_limit_clamped:
  "sent_requests (fst (get_top_items http it tr lim off)) =
     [\<lparr>item_type = it, time_range = tr, limit = min lim 50, offset = off\<rparr>] \<and>
   get_top_items http it tr lim off = get_top_items http it tr (min lim 50) off"
proof
  show "sent_requests (fst (get_top_items http it tr lim off)) =
     [\<lparr>item_type = it, time_range = tr, limit = min lim 50, offset = off\<rparr>]"
    by (simp add: get_top_items_sent top_items_request_def)
  have "top_items_request it tr (min lim 50) off = top_items_request it tr lim off"
    by (simp add: top_items_request_def)
  then show "get_top_items http it tr lim off = get_top_items http it tr (min lim 50) off"
    by (simp add: get_top_items_def)
qed

section \<open>The thread pool and the loop over the futures\<close>

lemma pool_run_start:
  assumes "queued \<noteq> [] \<and> length running < workers"
  shows "pool_run http it tr workers sched running queued =
     (Sent (task_request it tr (hd queued)) #
        fst (pool_run http it tr workers sched (running @ [hd queued]) (tl queued)),
      snd (pool_run http it tr workers sched (running @ [hd queued]) (tl queued)))"
proof -
  have c: "(queued \<noteq> [] \<and> length running < workers) = True"
    using assms by simp
  show ?thesis
    by (subst pool_run.simps) (simp only: c if_True split_beta Let_def task_request_def)
qed

lemma pool_run_idle:
  assumes "\<not> (queued \<noteq> [] \<and> length running < workers)" "running = []"
  shows "pool_run http it tr workers sched running queued = ([], [])"
proof -
  have c: "(queued \<noteq> [] \<and> length running < workers) = False" "(running = []) = True"
    using assms by simp_all
  show ?thesis
    by (subst pool_run.simps) (simp only: c if_True if_False)
qed

lemma pool_run_finish:
  assumes "\<not> (queued \<noteq> [] \<and> length running < workers)" "running \<noteq> []"
    and "i = (case sched of [] \<Rightarrow> 0 | k # _ \<Rightarrow> k mod length running)"
  shows "pool_run http it tr workers sched running queued =
     (fst (handle_reply (http (task_request it tr (running ! i)))) @
        fst (pool_run http it tr workers (tl sched) (take i running @ drop (Suc i) running) queued),
      task_future http it tr (running ! i) #
        snd (pool_run http it tr workers (tl sched) (take i running @ drop (Suc i) running) queued))"
proof -
  have c: "(queued \<noteq> [] \<and> length running < workers) = False" "(running = []) = False"
    using assms by simp_all
  show ?thesis
    by (subst pool_run.simps)
       (simp only: c assms(3) if_False split_beta Let_def task_request_def task_future_def
          snd_conv fst_conv)
qed

lemma pool_run_sent:
  "0 < workers \<Longrightarrow>
   sent_requests (fst (pool_run http it tr workers sched running queued)) =
     map (task_request it tr) queued"
proof (induction http it tr workers sched running queued rule: pool_run.induct)
  case (1 http it tr workers sched running queued)
  show ?case
  proof (cases "queued \<noteq> [] \<and> length running < workers")
    case True
    then obtain t ts where q: "queued = t # ts" by (cases queued) auto
    from "1.IH"(1)[OF True "1.prems"] pool_run_start[OF True, of http it tr sched] q show ?thesis
      by simp
  next
    case False
    show ?thesis
    proof (cases "running = []")
      case True
      with False "1.prems" have "queued = []" by auto
      with True pool_run_idle[OF False True, of http it tr sched] show ?thesis by simp
    next
      case nonempty: False
      define i where "i = (case sched of [] \<Rightarrow> 0 | k # _ \<Rightarrow> k mod length running)"
      obtain lim off where lo: "running ! i = (lim, off)" by (cases "running ! i")
      obtain out res where h: "handle_reply (http (top_items_request it tr lim off)) = (out, res)"
        by (cases "handle_reply (http (top_items_request it tr lim off))")
      have IH: "sent_requests (fst (pool_run http it tr workers (tl sched)
                  (take i running @ drop (Suc i) running) queued)) = map (task_request it tr) queued"
        using "1.IH"(2)[OF False nonempty i_def refl lo[symmetric] refl h[symmetric]] "1.prems" by simp
      show ?thesis
        using IH
        by (simp add: pool_run_finish[OF False nonempty i_def] sent_requests_append
              sent_requests_handle_reply)
    qed
  qed
qed

lemma mset_remove_nth:
  "i < length xs \<Longrightarrow> add_mset (xs ! i) (mset (take i xs @ drop (Suc i) xs)) = mset xs"
  by (metis append_take_drop_id Cons_nth_drop_Suc mset.simps(2) mset_append union_mset_add_mset_right)

lemma pool_run_futures:
  "0 < workers \<Longrightarrow>
   mset (snd (pool_run http it tr workers sched running queued)) =
     image_mset (task_future http it tr) (mset running + mset queued)"
proof (induction http it tr workers sched running queued rule: pool_run.induct)
  case (1 http it tr workers sched running queued)
  show ?case
  proof (cases "queued \<noteq> [] \<and> length running < workers")
    case True
    then obtain t ts where q: "queued = t # ts" by (cases queued) auto
    from "1.IH"(1)[OF True "1.prems"] pool_run_start[OF True, of http it tr sched] q show ?thesis
      by simp
  next
    case False
    show ?thesis
    proof (cases "running = []")
      case True
      with False "1.prems" have "queued = []" by auto
      with True pool_run_idle[OF False True, of http it tr sched] show ?thesis by simp
    next
      case nonempty: False
      define i where "i = (case sched of [] \<Rightarrow> 0 | k # _ \<Rightarrow> k mod length running)"
      have i: "i < length running"
        using nonempty by (cases sched) (simp_all add: i_def)
      obtain lim off where lo: "running ! i = (lim, off)" by (cases "running ! i")
      obtain out res where h: "handle_reply (http (top_items_request it tr lim off)) = (out, res)"
        by (cases "handle_reply (http (top_items_request it tr lim off))")
      have IH: "mset (snd (pool_run http it tr workers (tl sched)
                  (take i running @ drop (Suc i) running) queued)) =
                image_mset (task_future http it tr)
                  (mset (take i running @ drop (Suc i) running) + mset queued)"
        using "1.IH"(2)[OF False nonempty i_def refl lo[symmetric] refl h[symmetric]] "1.prems" by simp
      show ?thesis
        using IH by (simp add: pool_run_finish[OF False nonempty i_def] flip: mset_remove_nth[OF i])
    qed
  qed
qed

lemma collect_all_returned:
  "\<forall>x \<in> set fin. \<not> isl (snd x) \<Longrightarrow>
   collect fin acc failed = (failed, Inr (acc @ concat (map (\<lambda>x. get_items (projr (snd x))) fin)))"
  by (induction fin acc failed rule: collect.induct) simp_all

lemma collect_exit:
  "\<forall>x \<in> set fin. \<forall>e. snd x = Inl e \<longrightarrow> e = SystemExit 1 \<Longrightarrow> \<exists>x \<in> set fin. isl (snd x) \<Longrightarrow>
   collect fin acc failed = (failed, Inl (SystemExit 1))"
proof (induction fin acc failed rule: collect.induct)
  case (1 all_items failed)
  then show ?case by simp
next
  case (2 off data rest all_items failed)
  then show ?case by simp
next
  case (3 off e rest all_items failed)
  then have "e = SystemExit 1" by simp
  then show ?case by simp
qed

lemma task_future_exn: "snd (task_future http it tr t) = Inl e \<Longrightarrow> e = SystemExit 1"
  by (simp add: task_future_def handle_reply_exn)

lemma task_future_isl:
  "isl (snd (task_future http it tr t)) = (\<not> succeeds (http (task_request it tr t)))"
  by (cases "http (task_request it tr t)") (simp_all add: task_future_def)

lemma task_future_returned:
  "succeeds (http (task_request it tr t)) \<Longrightarrow>
   projr (snd (task_future http it tr t)) = reply_body (http (task_request it tr t))"
  by (cases "http (task_request it tr t)") (simp_all add: task_future_def)

lemma pool_run_set:
  "0 < workers \<Longrightarrow>
   set (snd (pool_run http it tr workers sched [] queued)) = task_future http it tr ` set queued"
proof -
  assume "0 < workers"
  then have "set_mset (mset (snd (pool_run http it tr workers sched [] queued))) =
      set_mset (image_mset (task_future http it tr) (mset queued))"
    by (simp add: pool_run_futures)
  then show ?thesis by simp
qed

lemma pool_collect_exit:
  assumes "t \<in> set queued" "\<not> succeeds (http (task_request it tr t))" "0 < workers"
  shows "collect (snd (pool_run http it tr workers sched [] queued)) acc [] =
           ([], Inl (SystemExit 1))"
proof (rule collect_exit)
  show "\<forall>x \<in> set (snd (pool_run http it tr workers sched [] queued)).
          \<forall>e. snd x = Inl e \<longrightarrow> e = SystemExit 1"
    using assms(3) by (auto simp: pool_run_set dest: task_future_exn)
  have "task_future http it tr t \<in> set (snd (pool_run http it tr workers sched [] queued))"
    using assms(1,3) by (simp add: pool_run_set)
  moreover have "isl (snd (task_future http it tr t))"
    using assms(2) by (simp add: task_future_isl)
  ultimately show "\<exists>x \<in> set (snd (pool_run http it tr workers sched [] queued)). isl (snd x)"
    by blast
qed

lemma pool_collect_returned:
  assumes "\<forall>t \<in> set queued. succeeds (http (task_request it tr t))" "0 < workers"
  shows "\<exists>xs. collect (snd (pool_run http it tr workers sched [] queued)) acc [] = ([], Inr xs) \<and>
           length xs = length acc +
             sum_list (map (\<lambda>t. length (get_items (reply_body (http (task_request it tr t))))) queued)"
proof -
  let ?fin = "snd (pool_run http it tr workers sched [] queued)"
  let ?g = "\<lambda>x. length (get_items (projr (snd x)))"
  have ok: "\<forall>x \<in> set ?fin. \<not> isl (snd x)"
    using assms by (auto simp: pool_run_set task_future_isl)
  have "sum_list (map ?g ?fin) = sum_mset (image_mset ?g (mset ?fin))"
    by (simp flip: sum_mset_sum_list)
  also have "\<dots> = sum_mset (image_mset (\<lambda>t. ?g (task_future http it tr t)) (mset queued))"
    using assms(2) by (simp add: pool_run_futures image_mset.compositionality comp_def)
  also have "\<dots> = sum_mset (image_mset
        (\<lambda>t. length (get_items (reply_body (http (task_request it tr t))))) (mset queued))"
    using assms(1) by (intro arg_cong[where f = sum_mset] image_mset_cong) (simp add: task_future_returned)
  also have "\<dots> = sum_list (map (\<lambda>t. length (get_items (reply_body (http (task_request it tr t))))) queued)"
    by (simp flip: sum_mset_sum_list)
  finally have "length (concat (map (\<lambda>x. get_items (projr (snd x))) ?fin)) =
      sum_list (map (\<lambda>t. length (get_items (reply_body (http (task_request it tr t))))) queued)"
    by (simp add: length_concat comp_def)
  then show ?thesis
    using collect_all_returned[OF ok, of acc "[]"] by simp
qed

section \<open>A whole fetch\<close>

lemma map_task_request_page_tasks: "map (task_request it tr) (page_tasks tot) = page_requests it tr tot"
  by (simp add: page_tasks_def page_requests_def task_request_def comp_def)

lemma get_all_top_items_paged:
  assumes "http (top_items_request it tr 50 0) = Response st fd" "\<not> raise_for_status st"
    and "int (length (get_items fd)) < cap_total (get_total fd) max_items"
  shows "get_all_top_items http sched it tr max_items parallel =
    (if \<not> parallel \<or> py_range 50 (cap_total (get_total fd) max_items) 50 = [] then
       \<lparr>trace = Sent (top_items_request it tr 50 0) #
           fst (fetch_sequential http it tr (cap_total (get_total fd) max_items)
                 (py_range 50 (cap_total (get_total fd) max_items) 50) (get_items fd)),
        soft_failures = [],
        result = map_sum id (\<lambda>xs. py_slice_to xs (cap_total (get_total fd) max_items))
           (snd (fetch_sequential http it tr (cap_total (get_total fd) max_items)
                 (py_range 50 (cap_total (get_total fd) max_items) 50) (get_items fd)))\<rparr>
     else
       \<lparr>trace = Sent (top_items_request it tr 50 0) #
           fst (pool_run http it tr 10 sched [] (page_tasks (cap_total (get_total fd) max_items))),
        soft_failures =
           fst (collect (snd (pool_run http it tr 10 sched []
                  (page_tasks (cap_total (get_total fd) max_items)))) (get_items fd) []),
        result = map_sum id (\<lambda>xs. py_slice_to xs (cap_total (get_total fd) max_items))
           (snd (collect (snd (pool_run http it tr 10 sched []
                  (page_tasks (cap_total (get_total fd) max_items)))) (get_items fd) []))\<rparr>)"
  using assms
  by (simp add: get_all_top_items_def get_top_items_ok Let_def page_tasks_def split_beta
        split: sum.splits prod.splits)

lemma page_failure:
  assumes "http (top_items_request it tr 50 0) = Response st fd" "\<not> raise_for_status st"
    and "int (length (get_items fd)) < cap_total (get_total fd) max_items"
    and "off \<in> set (py_range 50 (cap_total (get_total fd) max_items) 50)"
    and "\<not> succeeds (http (top_items_request it tr (min 50 (cap_total (get_total fd) max_items - off)) off))"
  shows "result (get_all_top_items http sched it tr max_items parallel) = Inl (SystemExit 1) \<and>
         soft_failures (get_all_top_items http sched it tr max_items parallel) = []"
proof -
  let ?tot = "cap_total (get_total fd) max_items"
  have seq: "snd (fetch_sequential http it tr ?tot (py_range 50 ?tot 50) (get_items fd)) =
      Inl (SystemExit 1)"
    using assms(4,5) by (intro fetch_sequential_fails) blast
  have t: "(min 50 (?tot - off), off) \<in> set (page_tasks ?tot)"
    using assms(4) by (simp add: page_tasks_def)
  have par: "collect (snd (pool_run http it tr 10 sched [] (page_tasks ?tot))) (get_items fd) [] =
      ([], Inl (SystemExit 1))"
    using assms(5) by (intro pool_collect_exit[OF t]) (simp_all add: task_request_def)
  show ?thesis
    using seq par assms(4)
    by (simp add: get_all_top_items_paged[where http=http and st=st and fd=fd, OF assms(1-3)])
qed

lemma py_range_237: "py_range 50 237 50 = [50, 100, 150, 200]"
  by (simp add: py_range_step py_range_empty)

lemma length_py_slice_to: "int (length xs) = n \<Longrightarrow> py_slice_to xs n = xs"
  by (auto simp: py_slice_to_def)


lemma library_server_first:
  "library_server n (top_items_request it tr 50 0) =
     Response 200 \<lparr>p_items = Some (take 50 [0..<n]), p_total = Some (int n)\<rparr>"
  by (simp add: library_server_def top_items_request_def)

lemma raise_for_status_200: "\<not> raise_for_status 200"
  by (simp add: raise_for_status_def)


text \<open>
  C8. If the first request, the one at offset 0, fails with a transport error or with an
  HTTP status from 400 to 599, \<^verbatim>\<open>get_all_top_items\<close> raises \<^verbatim>\<open>SystemExit(1)\<close> and
  has sent no request but that one.
\<close>

theorem first_request_fails:
  assumes "http (top_items_request it tr 50 0) = NoConnection \<or>
           (\<exists>s p. http (top_items_request it tr 50 0) = Response s p \<and> raise_for_status s)"
  shows "result (get_all_top_items http sched it tr max_items parallel) = Inl (SystemExit 1) \<and>
         sent_requests (trace (get_all_top_items http sched it tr max_items parallel)) =
           [top_items_request it tr 50 0]"
  using assms
  by (auto simp: get_all_top_items_def get_top_items_no_connection get_top_items_status)

theorem first_request_fails_witness:
  "result (get_all_top_items (failing_where (\<lambda>req. offset req = 0) NoConnection (library_server 237))
             [] ''tracks'' ''medium_term'' None True) = Inl (SystemExit 1) \<and>
   sent_requests (trace (get_all_top_items
       (failing_where (\<lambda>req. offset req = 0) NoConnection (library_server 237))
       [] ''tracks'' ''medium_term'' None True)) =
     [\<lparr>item_type = ''tracks'', time_range = ''medium_term'', limit = 50, offset = 0\<rparr>]"
  using first_request_fails[of "failing_where (\<lambda>req. offset req = 0) NoConnection (library_server 237)"
      "''tracks''" "''medium_term''" "[]" None True]
  by (simp add: failing_where_def top_items_request_def)

text \<open>
  C7. When the total of the first page (capped by \<^verbatim>\<open>max_items\<close>) is at most 50, the first
  request is the only one sent; and when the first page holds as many items as it declares,
  these items are the list returned: no item for a total of 0, 37 items for a total of 37.
\<close>

theorem single_page:
  assumes "http (top_items_request it tr 50 0) = Response s p" "\<not> raise_for_status s"
    and "cap_total (get_total p) max_items \<le> 50"
  shows "sent_requests (trace (get_all_top_items http sched it tr max_items parallel)) =
           [top_items_request it tr 50 0] \<and>
         (int (length (get_items p)) = get_total p \<longrightarrow>
            result (get_all_top_items http sched it tr max_items parallel) = Inr (get_items p))"
proof -
  have "sent_requests (trace (get_all_top_items http sched it tr max_items parallel)) =
           [top_items_request it tr 50 0]"
    using assms by (simp add: get_all_top_items_def get_top_items_ok Let_def py_range_empty)
  moreover have "result (get_all_top_items http sched it tr max_items parallel) = Inr (get_items p)"
    if "int (length (get_items p)) = get_total p"
    using early_return[where http=http and it=it and tr=tr and s=s and p=p and max_items=max_items]
      assms(1,2) cap_total_le[of "get_total p" max_items] that by simp
  ultimately show ?thesis by blast
qed

theorem single_page_witness:
  "sent_requests (trace (get_all_top_items (library_server 37) [] ''tracks'' ''medium_term'' None True)) =
     [\<lparr>item_type = ''tracks'', time_range = ''medium_term'', limit = 50, offset = 0\<rparr>] \<and>
   result (get_all_top_items (library_server 37) [] ''tracks'' ''medium_term'' None True) =
     Inr [0..<37] \<and>
   result (get_all_top_items (library_server 0) [] ''tracks'' ''medium_term'' None True) = Inr []"
  using single_page[where http="library_server 37" and it="''tracks''" and tr="''medium_term''"
          and max_items=None and sched="[]" and parallel=True, OF library_server_first raise_for_status_200]
        single_page[where http="library_server 0" and it="''tracks''" and tr="''medium_term''"
          and max_items=None and sched="[]" and parallel=True, OF library_server_first raise_for_status_200]
  by (simp add: top_items_request_def get_items_def get_total_def)

text \<open>
  C3 (a defect of the code). When the first page already holds at least as many items as the
  total, capped by \<^verbatim>\<open>max_items\<close>, the early return hands back the whole first page: it
  is not cut down to the total, as the final return is. With \<^verbatim>\<open>max_items = 10\<close> and a
  first page of 50 items the caller gets 50 items.
\<close>

theorem early_return_untruncated:
  assumes "http (top_items_request it tr 50 0) = Response s p" "\<not> raise_for_status s"
    and "cap_total (get_total p) max_items \<le> int (length (get_items p))"
  shows "result (get_all_top_items http sched it tr max_items parallel) = Inr (get_items p)"
  using early_return[where http=http and it=it and tr=tr and s=s and p=p and max_items=max_items,
      OF assms]
  by simp

theorem early_return_untruncated_witness:
  "result (get_all_top_items (library_server 237) [] ''tracks'' ''medium_term'' (Some 10) True) =
     Inr [0..<50] \<and> cap_total 237 (Some 10) = 10"
  using early_return_untruncated[where http="library_server 237" and it="''tracks''" and tr="''medium_term''"
          and max_items="Some 10" and sched="[]" and parallel=True,
          OF library_server_first raise_for_status_200]
  by (simp add: get_items_def get_total_def)

text \<open>
  C1 (a defect of the code). When the page at one of the later offsets fails with a
  transport error, \<^verbatim>\<open>get_top_items\<close> has called \<^verbatim>\<open>sys.exit(1)\<close>, and the handler
  \<^verbatim>\<open>except Exception\<close> of the parallel loop does not catch \<^verbatim>\<open>SystemExit\<close>: whatever
  the schedule, \<^verbatim>\<open>get_all_top_items\<close> raises \<^verbatim>\<open>SystemExit(1)\<close>, returns no item of
  the other pages and reports no offset as failed.
\<close>

theorem page_failure_exits:
  assumes "http (top_items_request it tr 50 0) = Response st first_data" "\<not> raise_for_status st"
    and "int (length (get_items first_data)) < cap_total (get_total first_data) max_items"
    and "off \<in> set (py_range 50 (cap_total (get_total first_data) max_items) 50)"
    and "http (top_items_request it tr (min 50 (cap_total (get_total first_data) max_items - off)) off) =
           NoConnection"
  shows "result (get_all_top_items http sched it tr max_items parallel) = Inl (SystemExit 1) \<and>
         soft_failures (get_all_top_items http sched it tr max_items parallel) = []"
  using page_failure[where http=http and st=st and fd=first_data and off=off, OF assms(1-4)] assms(5)
  by simp

theorem page_failure_exits_witness:
  "result (get_all_top_items (failing_where (\<lambda>req. offset req = 100) NoConnection (library_server 237))
             [] ''tracks'' ''medium_term'' None True) = Inl (SystemExit 1) \<and>
   soft_failures (get_all_top_items
       (failing_where (\<lambda>req. offset req = 100) NoConnection (library_server 237))
       [] ''tracks'' ''medium_term'' None True) = []"
  using page_failure_exits[where http="failing_where (\<lambda>req. offset req = 100) NoConnection (library_server 237)"
      and it="''tracks''" and tr="''medium_term''" and max_items=None and sched="[]" and parallel=True
      and st=200 and first_data="\<lparr>p_items = Some (take 50 [0..<237]), p_total = Some 237\<rparr>" and off=100]
  by (simp add: failing_where_def library_server_def top_items_request_def raise_for_status_def
        get_items_def get_total_def py_range_237)

text \<open>
  C6. For a total of 237, when the first page holds 50 items and every later page succeeds
  and holds as many items as were asked for, exactly five requests are sent, at the offsets
  0, 50, 100, 150 and 200 with the limits 50, 50, 50, 50 and 37, in the sequential path and,
  whatever the schedule, in the parallel path; and the list returned has 237 items.
\<close>

theorem fetch_237:
  assumes "http (top_items_request it tr 50 0) = Response st first_data" "\<not> raise_for_status st"
    and "cap_total (get_total first_data) max_items = 237"
    and "length (get_items first_data) = 50"
    and "\<forall>off \<in> {50, 100, 150, 200}.
           succeeds (http (top_items_request it tr (min 50 (237 - off)) off)) \<and>
           int (length (get_items (reply_body (http (top_items_request it tr (min 50 (237 - off)) off))))) =
             min 50 (237 - off)"
  shows "sent_requests (trace (get_all_top_items http sched it tr max_items parallel)) =
           [\<lparr>item_type = it, time_range = tr, limit = 50, offset = 0\<rparr>,
            \<lparr>item_type = it, time_range = tr, limit = 50, offset = 50\<rparr>,
            \<lparr>item_type = it, time_range = tr, limit = 50, offset = 100\<rparr>,
            \<lparr>item_type = it, time_range = tr, limit = 50, offset = 150\<rparr>,
            \<lparr>item_type = it, time_range = tr, limit = 37, offset = 200\<rparr>] \<and>
         (\<exists>xs. result (get_all_top_items http sched it tr max_items parallel) = Inr xs \<and>
               length xs = 237)"
proof -
  let ?F = "get_all_top_items http sched it tr max_items parallel"
  let ?len = "\<lambda>off. length (get_items (reply_body (http (top_items_request it tr (min 50 (237 - off)) off))))"
  have rem: "int (length (get_items first_data)) < cap_total (get_total first_data) max_items"
    using assms(3,4) by simp
  note paged = get_all_top_items_paged[where http=http and st=st and fd=first_data
        and sched=sched and parallel=parallel and max_items=max_items,
      OF assms(1,2) rem, unfolded assms(3) py_range_237]
  have ok: "\<forall>off \<in> set [50, 100, 150, 200].
      succeeds (http (top_items_request it tr (min 50 (237 - off)) off))"
    using assms(5) by simp
  have lens: "?len 50 = 50" "?len 100 = 50" "?len 150 = 50" "?len 200 = 37"
    using assms(5) by auto
  have reqs: "page_requests it tr 237 =
      [top_items_request it tr 50 50, top_items_request it tr 50 100,
       top_items_request it tr 50 150, top_items_request it tr 37 200]"
    by (simp add: page_requests_def py_range_237)
  show ?thesis
  proof (cases parallel)
    case False
    have "fetch_sequential http it tr 237 [50, 100, 150, 200] (get_items first_data) =
        (map (\<lambda>off. Sent (top_items_request it tr (min 50 (237 - off)) off)) [50, 100, 150, 200],
         Inr (get_items first_data @ concat (map (\<lambda>off. get_items (reply_body
            (http (top_items_request it tr (min 50 (237 - off)) off)))) [50, 100, 150, 200])))"
      using ok by (rule fetch_sequential_succeeds)
    then show ?thesis
      using False lens assms(4) paged
      by (simp add: top_items_request_def length_py_slice_to)
  next
    case True
    have tasks: "\<forall>t \<in> set (page_tasks 237). succeeds (http (task_request it tr t))"
      using ok by (simp add: page_tasks_def py_range_237 task_request_def)
    obtain xs where xs:
      "collect (snd (pool_run http it tr 10 sched [] (page_tasks 237))) (get_items first_data) [] =
         ([], Inr xs)"
      "length xs = length (get_items first_data) +
         sum_list (map (\<lambda>t. length (get_items (reply_body (http (task_request it tr t)))))
           (page_tasks 237))"
      using pool_collect_returned[OF tasks, of 10 sched "get_items first_data"] by auto
    have "length xs = 237"
      using xs(2) lens assms(4) by (simp add: page_tasks_def py_range_237 task_request_def)
    moreover have "sent_requests (fst (pool_run http it tr 10 sched [] (page_tasks 237))) =
        page_requests it tr 237"
      by (simp add: pool_run_sent map_task_request_page_tasks)
    ultimately show ?thesis
      using True xs(1) paged
      by (simp add: reqs top_items_request_def length_py_slice_to)
  qed
qed

theorem fetch_237_witness:
  "sent_requests (trace (get_all_top_items (library_server 237) [] ''tracks'' ''medium_term'' None True)) =
     [\<lparr>item_type = ''tracks'', time_range = ''medium_term'', limit = 50, offset = 0\<rparr>,
      \<lparr>item_type = ''tracks'', time_range = ''medium_term'', limit = 50, offset = 50\<rparr>,
      \<lparr>item_type = ''tracks'', time_range = ''medium_term'', limit = 50, offset = 100\<rparr>,
      \<lparr>item_type = ''tracks'', time_range = ''medium_term'', limit = 50, offset = 150\<rparr>,
      \<lparr>item_type = ''tracks'', time_range = ''medium_term'', limit = 37, offset = 200\<rparr>] \<and>
   (\<exists>xs. result (get_all_top_items (library_server 237) [] ''tracks'' ''medium_term'' None True) = Inr xs \<and>
         length xs = 237)"
  using fetch_237[where http="library_server 237" and it="''tracks''" and tr="''medium_term''"
      and max_items=None and sched="[]" and parallel=True
      and st=200 and first_data="\<lparr>p_items = Some (take 50 [0..<237]), p_total = Some 237\<rparr>"]
  by (simp add: library_server_def top_items_request_def raise_for_status_def
        get_items_def get_total_def)

section \<open>A page that answers 401\<close>

lemma py_range_600:
  "py_range 50 600 50 = [50, 100, 150, 200, 250, 300, 350, 400, 450, 500, 550]"
  by (simp add: py_range_step py_range_empty)

lemma no_request_after_401_shape: "no_request_after_401 (map Sent rs @ map Printed ms)"
  by (induction rs) (simp_all add: no_request_after_401_Printed)

lemma trace_first_failure:
  "\<not> succeeds (http (top_items_request it tr 50 0)) \<Longrightarrow>
   trace (get_all_top_items http sched it tr max_items parallel) =
     fst (get_top_items http it tr 50 0)"
  using get_top_items_fails[of http it tr 50 0]
  by (cases "get_top_items http it tr 50 0") (simp add: get_all_top_items_def)

lemma trace_sequential_shape:
  "\<exists>rs ms. trace (get_all_top_items http sched it tr max_items False) =
      map Sent rs @ map Printed ms"
proof (cases "http (top_items_request it tr 50 0)")
  case NoConnection
  then have "trace (get_all_top_items http sched it tr max_items False) =
      map Sent [top_items_request it tr 50 0] @ map Printed [MsgConnection]"
    by (simp add: get_all_top_items_def get_top_items_no_connection)
  then show ?thesis by blast
next
  case (Response s p)
  show ?thesis
  proof (cases "raise_for_status s")
    case True
    with Response have "trace (get_all_top_items http sched it tr max_items False) =
        map Sent [top_items_request it tr 50 0] @ map Printed [status_message s]"
      by (simp add: get_all_top_items_def get_top_items_status)
    then show ?thesis by blast
  next
    case False
    obtain rs ms where seq: "fst (fetch_sequential http it tr (cap_total (get_total p) max_items)
        (py_range 50 (cap_total (get_total p) max_items) 50) (get_items p)) =
        map Sent rs @ map Printed ms"
      using fetch_sequential_shape by blast
    show ?thesis
    proof (cases "cap_total (get_total p) max_items - int (length (get_items p)) \<le> 0")
      case True
      with Response False have "trace (get_all_top_items http sched it tr max_items False) =
          map Sent [top_items_request it tr 50 0] @ map Printed []"
        by (simp add: get_all_top_items_def get_top_items_ok Let_def)
      then show ?thesis by blast
    next
      case rem: False
      then have lt: "int (length (get_items p)) < cap_total (get_total p) max_items"
        by simp
      have "trace (get_all_top_items http sched it tr max_items False) =
          map Sent (top_items_request it tr 50 0 # rs) @ map Printed ms"
        using seq
        by (simp add: get_all_top_items_paged[where http=http and st=s and fd=p, OF Response False lt])
      then show ?thesis by blast
    qed
  qed
qed

lemma raise_for_status_401: "raise_for_status 401"
  by (simp add: raise_for_status_def)

lemma status_message_401: "(status_message s = Msg401) = (s = 401)"
  by (simp add: status_message_def)

lemma parallel_sent:
  assumes "http (top_items_request it tr 50 0) = Response st fd" "\<not> raise_for_status st"
    and "int (length (get_items fd)) < cap_total (get_total fd) max_items"
  shows "sent_requests (trace (get_all_top_items http sched it tr max_items True)) =
           top_items_request it tr 50 0 # page_requests it tr (cap_total (get_total fd) max_items)"
  by (simp add: get_all_top_items_paged[where http=http and st=st and fd=fd, OF assms]
        pool_run_sent map_task_request_page_tasks page_requests_def)


text \<open>
  C4, as the claim states it, fails on the parallel path. The pool has ten workers and
  nothing cancels a submitted call: with eleven pages after the first, all answering 401,
  the eleventh request is sent after the first 401 has been printed.
\<close>

theorem unauthorized_counterexample:
  "\<not> no_request_after_401
      (trace (get_all_top_items
          (failing_where (\<lambda>req. 50 \<le> offset req)
            (Response 401 \<lparr>p_items = None, p_total = None\<rparr>) (library_server 600))
          [] ''tracks'' ''medium_term'' None True))"
  by (simp add: get_all_top_items_def get_top_items_def failing_where_def library_server_def
        top_items_request_def raise_for_status_def get_items_def get_total_def py_range_600
        pool_run.simps status_message_def Let_def)

text \<open>
  C4, amended. A page that answers 401 makes \<^verbatim>\<open>get_top_items\<close> print the message of the
  401, which no other status prints, and raise \<^verbatim>\<open>SystemExit(1)\<close>. In the sequential path,
  and in either path when it is the first page that fails, no request is sent after that
  message. In the parallel path, once the first page has shown that more pages are needed,
  every one of them is requested whatever the replies; and in both paths a later page that
  answers 401 makes \<^verbatim>\<open>get_all_top_items\<close> raise \<^verbatim>\<open>SystemExit(1)\<close>.
\<close>

theorem unauthorized_page:
  "(http (top_items_request it tr lim off) = Response 401 p \<longrightarrow>
      get_top_items http it tr lim off =
        ([Sent (top_items_request it tr lim off), Printed Msg401], Inl (SystemExit 1))) \<and>
   (status_message s = Msg401) = (s = 401) \<and>
   no_request_after_401 (trace (get_all_top_items http sched it tr max_items False)) \<and>
   (\<not> succeeds (http (top_items_request it tr 50 0)) \<longrightarrow>
      no_request_after_401 (trace (get_all_top_items http sched it tr max_items True))) \<and>
   (http (top_items_request it tr 50 0) = Response st first_data \<and> \<not> raise_for_status st \<and>
    int (length (get_items first_data)) < cap_total (get_total first_data) max_items \<longrightarrow>
      sent_requests (trace (get_all_top_items http sched it tr max_items True)) =
        top_items_request it tr 50 0 #
        page_requests it tr (cap_total (get_total first_data) max_items) \<and>
      (\<forall>off' \<in> set (py_range 50 (cap_total (get_total first_data) max_items) 50).
         (\<exists>q. http (top_items_request it tr
                 (min 50 (cap_total (get_total first_data) max_items - off')) off') =
               Response 401 q) \<longrightarrow>
         result (get_all_top_items http sched it tr max_items parallel) = Inl (SystemExit 1)))"
proof (intro conjI impI ballI)
  assume "http (top_items_request it tr lim off) = Response 401 p"
  then show "get_top_items http it tr lim off =
      ([Sent (top_items_request it tr lim off), Printed Msg401], Inl (SystemExit 1))"
    by (simp add: get_top_items_status raise_for_status_401 status_message_def)
next
  show "(status_message s = Msg401) = (s = 401)"
    by (rule status_message_401)
next
  show "no_request_after_401 (trace (get_all_top_items http sched it tr max_items False))"
    using trace_sequential_shape[of http sched it tr max_items]
    by (auto simp: no_request_after_401_shape)
next
  assume "\<not> succeeds (http (top_items_request it tr 50 0))"
  then have "trace (get_all_top_items http sched it tr max_items True) =
      fst (get_top_items http it tr 50 0)"
    by (rule trace_first_failure)
  moreover obtain ms where "fst (get_top_items http it tr 50 0) =
      map Sent [top_items_request it tr 50 0] @ map Printed ms"
    using get_top_items_shape[of http it tr 50 0] by auto
  ultimately show "no_request_after_401 (trace (get_all_top_items http sched it tr max_items True))"
    by (simp only: no_request_after_401_shape)
next
  assume a: "http (top_items_request it tr 50 0) = Response st first_data \<and> \<not> raise_for_status st \<and>
    int (length (get_items first_data)) < cap_total (get_total first_data) max_items"
  then show "sent_requests (trace (get_all_top_items http sched it tr max_items True)) =
        top_items_request it tr 50 0 #
        page_requests it tr (cap_total (get_total first_data) max_items)"
    by (simp add: parallel_sent[where http=http and st=st and fd=first_data])
next
  fix off'
  assume a: "http (top_items_request it tr 50 0) = Response st first_data \<and> \<not> raise_for_status st \<and>
    int (length (get_items first_data)) < cap_total (get_total first_data) max_items"
    and o: "off' \<in> set (py_range 50 (cap_total (get_total first_data) max_items) 50)"
    and q: "\<exists>q. http (top_items_request it tr
                 (min 50 (cap_total (get_total first_data) max_items - off')) off') =
               Response 401 q"
  from q have "\<not> succeeds (http (top_items_request it tr
                 (min 50 (cap_total (get_total first_data) max_items - off')) off'))"
    by (auto simp: raise_for_status_401)
  with a o show "result (get_all_top_items http sched it tr max_items parallel) = Inl (SystemExit 1)"
    using page_failure[where http=http and st=st and fd=first_data and off=off'
        and max_items=max_items and it=it and tr=tr and sched=sched and parallel=parallel]
    by simp
qed

theorem unauthorized_page_witness:
  "get_top_items (failing_where (\<lambda>req. 50 \<le> offset req)
        (Response 401 \<lparr>p_items = None, p_total = None\<rparr>) (library_server 600))
      ''tracks'' ''medium_term'' 50 50 =
     ([Sent \<lparr>item_type = ''tracks'', time_range = ''medium_term'', limit = 50, offset = 50\<rparr>,
       Printed Msg401], Inl (SystemExit 1)) \<and>
   no_request_after_401 (trace (get_all_top_items
      (failing_where (\<lambda>req. 50 \<le> offset req)
        (Response 401 \<lparr>p_items = None, p_total = None\<rparr>) (library_server 600))
      [] ''tracks'' ''medium_term'' None False)) \<and>
   no_request_after_401 (trace (get_all_top_items
      (failing_where (\<lambda>req. True)
        (Response 401 \<lparr>p_items = None, p_total = None\<rparr>) (library_server 600))
      [] ''tracks'' ''medium_term'' None True)) \<and>
   sent_requests (trace (get_all_top_items
      (failing_where (\<lambda>req. 50 \<le> offset req)
        (Response 401 \<lparr>p_items = None, p_total = None\<rparr>) (library_server 600))
      [] ''tracks'' ''medium_term'' None True)) =
     top_items_request ''tracks'' ''medium_term'' 50 0 # page_requests ''tracks'' ''medium_term'' 600 \<and>
   result (get_all_top_items
      (failing_where (\<lambda>req. 50 \<le> offset req)
        (Response 401 \<lparr>p_items = None, p_total = None\<rparr>) (library_server 600))
      [] ''tracks'' ''medium_term'' None True) = Inl (SystemExit 1)"
  using unauthorized_page[where http="failing_where (\<lambda>req. 50 \<le> offset req)
        (Response 401 \<lparr>p_items = None, p_total = None\<rparr>) (library_server 600)"
      and it="''tracks''" and tr="''medium_term''" and lim=50 and off=50
      and p="\<lparr>p_items = None, p_total = None\<rparr>" and s=401 and sched="[]" and max_items=None
      and st=200 and first_data="\<lparr>p_items = Some (take 50 [0..<600]), p_total = Some 600\<rparr>"
      and parallel=True]
    unauthorized_page[where http="failing_where (\<lambda>req. True)
        (Response 401 \<lparr>p_items = None, p_total = None\<rparr>) (library_server 600)"
      and it="''tracks''" and tr="''medium_term''" and lim=50 and off=50
      and p="\<lparr>p_items = None, p_total = None\<rparr>" and s=401 and sched="[]" and max_items=None
      and st=200 and first_data="\<lparr>p_items = Some (take 50 [0..<600]), p_total = Some 600\<rparr>"
      and parallel=True]
  by (simp add: failing_where_def library_server_def top_items_request_def raise_for_status_def
        get_items_def get_total_def py_range_600)


section \<open>The callback listener\<close>

lemma map_of_dict_set: "map_of (dict_set d k v) k' = (if k' = k then Some v else map_of d k')"
  by (induction d k v rule: dict_set.induct) auto









lemma post_token_ok:
  "endpoint (posted w) g = Answered s reason b \<Longrightarrow> \<not> raise_for_status s \<Longrightarrow>
   post_token endpoint g w = (Inr b, w\<lparr>posted := posted w @ [g]\<rparr>)"
  by (simp add: post_token_def)

lemma post_token_fails:
  "\<not> accepted (endpoint (posted w) g) \<Longrightarrow>
   \<exists>e. is_Exception e \<and> post_token endpoint g w = (Inl e, w\<lparr>posted := posted w @ [g]\<rparr>)"
  by (cases "endpoint (posted w) g") (auto simp: post_token_def)

lemma post_token_exn: "post_token endpoint g w = (Inl e, w') \<Longrightarrow> is_Exception e"
  by (cases "endpoint (posted w) g") (auto simp: post_token_def Let_def split: if_splits)




lemma send_error_ok:
  "v09 \<or> latin1 message \<Longrightarrow>
   send_error v09 response message w = Inr (w\<lparr>responded := responded w @ [response]\<rparr>)"
  by (simp add: send_error_def)

lemma send_error_raises:
  "\<not> v09 \<Longrightarrow> \<not> latin1 message \<Longrightarrow> send_error v09 response message w = Inl UnicodeEncodeError"
  by (simp add: send_error_def)










text \<open>What leaves \<^verbatim>\<open>do_GET\<close> is an \<^verbatim>\<open>Exception\<close>, which \<^verbatim>\<open>handle_request\<close> swallows.\<close>

lemma except_Exception_exn: "fst (except_Exception v09 e w) = Some x \<Longrightarrow> x = UnicodeEncodeError"
  by (auto simp: except_Exception_def send_error_def split: if_splits)

lemma do_GET_exn: "fst (do_GET endpoint r w) = Some x \<Longrightarrow> is_Exception x"
  by (auto simp: do_GET_def send_error_def Let_def split_beta
        split: option.splits prod.splits sum.splits if_splits dest!: except_Exception_exn)








section \<open>Refreshing the access token\<close>

lemma refresh_tok_choice:
  "truthy (py_or rt (dict_get toks k)) \<Longrightarrow>
   (if truthy rt then Inr rt
    else (case map_of toks k of None \<Rightarrow> Inl (KeyError k) | Some v \<Rightarrow> Inr v)) =
   Inr (py_or rt (dict_get toks k))"
  by (cases "truthy rt"; cases "map_of toks k") (simp_all add: py_or_def dict_get_def)

lemma refresh_block_ok:
  assumes "refresh_tok = py_or rt (dict_get toks ''refresh_token'')" "truthy refresh_tok"
    and "endpoint (posted w) (RefreshToken refresh_tok) = Answered s reason new_tokens"
    and "\<not> raise_for_status s"
    and "merged = (if map_of new_tokens ''refresh_token'' = None
                   then dict_set new_tokens ''refresh_token'' refresh_tok else new_tokens)"
    and "saved = dict_set merged ''expires_at'' (dict_get_default merged ''expires_in'' (JInt 3600))"
  shows "refresh_block endpoint rt toks w =
     ((case map_of new_tokens ''access_token'' of
         None \<Rightarrow> Inl (KeyError ''access_token'') | Some a \<Rightarrow> Inr a),
      w\<lparr>posted := posted w @ [RefreshToken refresh_tok], token_file := Some saved\<rparr>)"
proof -
  have c: "(if truthy rt then Inr rt
       else (case map_of toks ''refresh_token'' of
               None \<Rightarrow> Inl (KeyError ''refresh_token'') | Some v \<Rightarrow> Inr v)) = Inr refresh_tok"
    using assms(1,2) refresh_tok_choice[of rt toks "''refresh_token''"] by simp
  have p: "post_token endpoint (RefreshToken refresh_tok) w =
      (Inr new_tokens, w\<lparr>posted := posted w @ [RefreshToken refresh_tok]\<rparr>)"
    using assms(3,4) by (simp add: post_token_ok)
  have a: "map_of saved ''access_token'' = map_of new_tokens ''access_token''"
    by (simp add: assms(5,6) map_of_dict_set)
  show ?thesis
    unfolding refresh_block_def c
    using a
    by (simp add: refresh_access_token_def p save_tokens_def Let_def assms(5,6)
          split: option.splits)
qed

lemma refresh_block_fails:
  assumes "refresh_tok = py_or rt (dict_get toks ''refresh_token'')" "truthy refresh_tok"
    and "\<not> accepted (endpoint (posted w) (RefreshToken refresh_tok))"
  shows "\<exists>e. refresh_block endpoint rt toks w =
           (Inl e, w\<lparr>posted := posted w @ [RefreshToken refresh_tok]\<rparr>)"
proof -
  have c: "(if truthy rt then Inr rt
       else (case map_of toks ''refresh_token'' of
               None \<Rightarrow> Inl (KeyError ''refresh_token'') | Some v \<Rightarrow> Inr v)) = Inr refresh_tok"
    using assms(1,2) refresh_tok_choice[of rt toks "''refresh_token''"] by simp
  obtain e where "post_token endpoint (RefreshToken refresh_tok) w =
      (Inl e, w\<lparr>posted := posted w @ [RefreshToken refresh_tok]\<rparr>)"
    using post_token_fails[of endpoint w "RefreshToken refresh_tok"] assms(3) by blast
  then have "refresh_block endpoint rt toks w =
           (Inl e, w\<lparr>posted := posted w @ [RefreshToken refresh_tok]\<rparr>)"
    unfolding refresh_block_def c by (simp add: refresh_access_token_def)
  then show ?thesis by blast
qed

lemma refresh_block_exn: "refresh_block endpoint rt toks w = (Inl e, w') \<Longrightarrow> is_Exception e"
  by (auto simp: refresh_block_def refresh_access_token_def save_tokens_def Let_def
        split: if_splits option.splits sum.splits prod.splits dest: post_token_exn)

lemma get_valid_token_refresh:
  assumes "SPOTIFY_CLIENT_ID env = Some cid" "cid \<noteq> []"
    and "SPOTIFY_CLIENT_SECRET env = Some secret" "secret \<noteq> []"
    and "truthy (py_or (os_getenv (SPOTIFY_REFRESH_TOKEN env)) (dict_get (load_tokens w) ''refresh_token''))"
  shows "get_valid_token endpoint env requests w =
     (case refresh_block endpoint (os_getenv (SPOTIFY_REFRESH_TOKEN env)) (load_tokens w) w of
        (Inr a, w1) \<Rightarrow> Returned a w1
      | (Inl e, w1) \<Rightarrow> interactive endpoint cid requests w1)"
  using assms by (simp add: get_valid_token_def Let_def)

text \<open>
  C5. With the client's credentials set and a refresh token at hand (from the environment
  or, failing that, from the token file), when the token endpoint answers the refresh with
  a record that has no refresh token, the record written to the token file holds the
  refresh token that was sent; and when the answer has an access token,
  \<^verbatim>\<open>get_valid_token\<close> returns it and leaves that record in the file.
\<close>

theorem refresh_keeps_refresh_token:
  assumes "SPOTIFY_CLIENT_ID env = Some cid" "cid \<noteq> []"
    and "SPOTIFY_CLIENT_SECRET env = Some secret" "secret \<noteq> []"
    and "refresh_tok = py_or (os_getenv (SPOTIFY_REFRESH_TOKEN env))
                         (dict_get (load_tokens w) ''refresh_token'')"
    and "truthy refresh_tok"
    and "endpoint (posted w) (RefreshToken refresh_tok) = Answered s reason new_tokens"
    and "\<not> raise_for_status s"
    and "map_of new_tokens ''refresh_token'' = None"
  shows "(\<exists>saved. token_file (snd (refresh_block endpoint (os_getenv (SPOTIFY_REFRESH_TOKEN env))
                       (load_tokens w) w)) = Some saved \<and>
                 map_of saved ''refresh_token'' = Some refresh_tok) \<and>
         (map_of new_tokens ''access_token'' = Some a \<longrightarrow>
            (\<exists>w' saved. get_valid_token endpoint env requests w = Returned a w' \<and>
                 token_file w' = Some saved \<and>
                 map_of saved ''refresh_token'' = Some refresh_tok))"
proof -
  define saved where "saved = dict_set (dict_set new_tokens ''refresh_token'' refresh_tok) ''expires_at''
      (dict_get_default (dict_set new_tokens ''refresh_token'' refresh_tok) ''expires_in'' (JInt 3600))"
  have blk: "refresh_block endpoint (os_getenv (SPOTIFY_REFRESH_TOKEN env)) (load_tokens w) w =
     ((case map_of new_tokens ''access_token'' of
         None \<Rightarrow> Inl (KeyError ''access_token'') | Some a \<Rightarrow> Inr a),
      w\<lparr>posted := posted w @ [RefreshToken refresh_tok], token_file := Some saved\<rparr>)"
    using assms(9)
    by (intro refresh_block_ok[OF assms(5,6), where s=s and reason=reason
          and new_tokens=new_tokens] assms(7,8))
       (simp_all add: saved_def)
  have kept: "map_of saved ''refresh_token'' = Some refresh_tok"
    by (simp add: saved_def map_of_dict_set)
  have "get_valid_token endpoint env requests w =
      Returned a (w\<lparr>posted := posted w @ [RefreshToken refresh_tok], token_file := Some saved\<rparr>)"
    if "map_of new_tokens ''access_token'' = Some a"
    using that blk assms(5,6)
    by (simp add: get_valid_token_refresh[OF assms(1-4)])
  then show ?thesis
    using blk kept by auto
qed

theorem refresh_keeps_refresh_token_witness:
  "get_valid_token token_server configured [] (holding ''R1'') =
     Returned (JStr ''A2'')
       \<lparr>token_file = Some [(''access_token'', JStr ''A2''), (''expires_in'', JInt 3600),
                            (''refresh_token'', JStr ''R1''), (''expires_at'', JInt 3600)],
        posted = [RefreshToken (JStr ''R1'')], opened = [], responded = [], should_stop = False\<rparr>"
  using refresh_keeps_refresh_token[where env=configured and cid="''id''" and secret="''secret''"
      and w="holding ''R1''" and refresh_tok="JStr ''R1''" and endpoint=token_server and s=200
      and reason="ascii ''OK''"
      and new_tokens="[(''access_token'', JStr ''A2''), (''expires_in'', JInt 3600)]"
      and a="JStr ''A2''" and requests="[]"]
  by (simp add: configured_def holding_def fresh_world_def token_server_def raise_for_status_def
        py_or_def dict_get_def load_tokens_def get_valid_token_def refresh_block_def
        refresh_access_token_def post_token_def save_tokens_def dict_get_default_def Let_def)


text \<open>
  C9. With the client's credentials set and a refresh token at hand (from the environment
  or, failing that, from the token file), \<^verbatim>\<open>get_valid_token\<close> first posts the refresh.
  When the endpoint accepts it with a record that has an access token, that token is
  returned, and the state is the one before the call with the refresh posted and the token
  file holding exactly the record of the reply, with the refresh token that was sent added
  if the reply has none, and with \<^verbatim>\<open>expires_at\<close> set: a refresh token of the reply is
  kept, no browser is opened and no callback is answered.
  Every failure of the refresh ends in the interactive flow, and none reaches the caller:
  when the endpoint cannot be reached or answers a status from 400 to 599, the interactive
  flow runs after the refresh attempt, with the token file as it was; when the endpoint
  accepts the refresh with a record that has no access token, the record is written to the
  token file, the lookup of the access token raises \<^verbatim>\<open>KeyError\<close>, and the
  interactive flow runs from there; and whatever exception the refresh raises is one that
  \<^verbatim>\<open>except Exception\<close> catches, followed by the interactive flow from the state
  that the refresh left.
\<close>

theorem refresh_first:
  assumes "SPOTIFY_CLIENT_ID env = Some cid" "cid \<noteq> []"
    and "SPOTIFY_CLIENT_SECRET env = Some secret" "secret \<noteq> []"
    and "refresh_tok = py_or (os_getenv (SPOTIFY_REFRESH_TOKEN env))
                         (dict_get (load_tokens w) ''refresh_token'')"
    and "truthy refresh_tok"
  shows "(endpoint (posted w) (RefreshToken refresh_tok) = Answered s reason new_tokens \<and>
          \<not> raise_for_status s \<and> map_of new_tokens ''access_token'' = Some a \<longrightarrow>
            get_valid_token endpoint env requests w =
              Returned a
                (w\<lparr>posted := posted w @ [RefreshToken refresh_tok],
                   token_file := Some
                     (let merged = (if map_of new_tokens ''refresh_token'' = None
                                    then dict_set new_tokens ''refresh_token'' refresh_tok
                                    else new_tokens)
                      in dict_set merged ''expires_at''
                           (dict_get_default merged ''expires_in'' (JInt 3600)))\<rparr>)) \<and>
         (\<not> accepted (endpoint (posted w) (RefreshToken refresh_tok)) \<longrightarrow>
            get_valid_token endpoint env requests w =
              interactive endpoint cid requests
                (w\<lparr>posted := posted w @ [RefreshToken refresh_tok]\<rparr>)) \<and>
         (endpoint (posted w) (RefreshToken refresh_tok) = Answered s reason new_tokens \<and>
          \<not> raise_for_status s \<and> map_of new_tokens ''access_token'' = None \<longrightarrow>
            refresh_block endpoint (os_getenv (SPOTIFY_REFRESH_TOKEN env)) (load_tokens w) w =
              (Inl (KeyError ''access_token''),
               w\<lparr>posted := posted w @ [RefreshToken refresh_tok],
                  token_file := Some
                    (let merged = (if map_of new_tokens ''refresh_token'' = None
                                   then dict_set new_tokens ''refresh_token'' refresh_tok
                                   else new_tokens)
                     in dict_set merged ''expires_at''
                          (dict_get_default merged ''expires_in'' (JInt 3600)))\<rparr>) \<and>
            get_valid_token endpoint env requests w =
              interactive endpoint cid requests
                (w\<lparr>posted := posted w @ [RefreshToken refresh_tok],
                   token_file := Some
                     (let merged = (if map_of new_tokens ''refresh_token'' = None
                                    then dict_set new_tokens ''refresh_token'' refresh_tok
                                    else new_tokens)
                      in dict_set merged ''expires_at''
                           (dict_get_default merged ''expires_in'' (JInt 3600)))\<rparr>)) \<and>
         (\<forall>e w1. refresh_block endpoint (os_getenv (SPOTIFY_REFRESH_TOKEN env)) (load_tokens w) w =
                   (Inl e, w1) \<longrightarrow>
            is_Exception e \<and>
            get_valid_token endpoint env requests w = interactive endpoint cid requests w1)"
proof -
  define merged where "merged = (if map_of new_tokens ''refresh_token'' = None
       then dict_set new_tokens ''refresh_token'' refresh_tok else new_tokens)"
  define saved where "saved = dict_set merged ''expires_at''
      (dict_get_default merged ''expires_in'' (JInt 3600))"
  have saved: "(let merged = (if map_of new_tokens ''refresh_token'' = None
                                    then dict_set new_tokens ''refresh_token'' refresh_tok
                                    else new_tokens)
                in dict_set merged ''expires_at''
                     (dict_get_default merged ''expires_in'' (JInt 3600))) = saved"
    by (simp add: saved_def merged_def Let_def)
  have gvt: "get_valid_token endpoint env requests w =
     (case refresh_block endpoint (os_getenv (SPOTIFY_REFRESH_TOKEN env)) (load_tokens w) w of
        (Inr a, w1) \<Rightarrow> Returned a w1
      | (Inl e, w1) \<Rightarrow> interactive endpoint cid requests w1)"
    using assms(5,6) by (intro get_valid_token_refresh[OF assms(1-4)]) simp
  have blk: "refresh_block endpoint (os_getenv (SPOTIFY_REFRESH_TOKEN env)) (load_tokens w) w =
     ((case map_of new_tokens ''access_token'' of
         None \<Rightarrow> Inl (KeyError ''access_token'') | Some a \<Rightarrow> Inr a),
      w\<lparr>posted := posted w @ [RefreshToken refresh_tok], token_file := Some saved\<rparr>)"
    if "endpoint (posted w) (RefreshToken refresh_tok) = Answered s reason new_tokens"
      and "\<not> raise_for_status s"
    using that
    by (intro refresh_block_ok[OF assms(5,6), where s=s and reason=reason
          and new_tokens=new_tokens and merged=merged])
       (simp_all add: saved_def merged_def)
  have ok: "endpoint (posted w) (RefreshToken refresh_tok) = Answered s reason new_tokens \<and>
          \<not> raise_for_status s \<and> map_of new_tokens ''access_token'' = Some a \<longrightarrow>
      get_valid_token endpoint env requests w =
        Returned a (w\<lparr>posted := posted w @ [RefreshToken refresh_tok], token_file := Some saved\<rparr>)"
    using blk by (simp add: gvt)
  have failed: "\<not> accepted (endpoint (posted w) (RefreshToken refresh_tok)) \<longrightarrow>
      get_valid_token endpoint env requests w =
        interactive endpoint cid requests (w\<lparr>posted := posted w @ [RefreshToken refresh_tok]\<rparr>)"
  proof
    assume "\<not> accepted (endpoint (posted w) (RefreshToken refresh_tok))"
    then obtain e where "refresh_block endpoint (os_getenv (SPOTIFY_REFRESH_TOKEN env)) (load_tokens w) w =
        (Inl e, w\<lparr>posted := posted w @ [RefreshToken refresh_tok]\<rparr>)"
      using refresh_block_fails[OF assms(5,6), of endpoint w] by blast
    then show "get_valid_token endpoint env requests w =
        interactive endpoint cid requests (w\<lparr>posted := posted w @ [RefreshToken refresh_tok]\<rparr>)"
      by (simp add: gvt)
  qed
  have keyless: "endpoint (posted w) (RefreshToken refresh_tok) = Answered s reason new_tokens \<and>
          \<not> raise_for_status s \<and> map_of new_tokens ''access_token'' = None \<longrightarrow>
      refresh_block endpoint (os_getenv (SPOTIFY_REFRESH_TOKEN env)) (load_tokens w) w =
        (Inl (KeyError ''access_token''),
         w\<lparr>posted := posted w @ [RefreshToken refresh_tok], token_file := Some saved\<rparr>) \<and>
      get_valid_token endpoint env requests w =
        interactive endpoint cid requests
          (w\<lparr>posted := posted w @ [RefreshToken refresh_tok], token_file := Some saved\<rparr>)"
    using blk by (simp add: gvt)
  have any: "\<forall>e w1. refresh_block endpoint (os_getenv (SPOTIFY_REFRESH_TOKEN env)) (load_tokens w) w =
                   (Inl e, w1) \<longrightarrow>
      is_Exception e \<and>
      get_valid_token endpoint env requests w = interactive endpoint cid requests w1"
    using refresh_block_exn[of endpoint "os_getenv (SPOTIFY_REFRESH_TOKEN env)" "load_tokens w" w]
    by (simp add: gvt)
  show ?thesis
    unfolding saved by (intro conjI ok failed keyless any)
qed

theorem refresh_first_witness:
  "get_valid_token token_server configured [GET [(''code'', ascii ''good'')]] (holding ''R1'') =
     Returned (JStr ''A2'')
       \<lparr>token_file = Some [(''access_token'', JStr ''A2''), (''expires_in'', JInt 3600),
                            (''refresh_token'', JStr ''R1''), (''expires_at'', JInt 3600)],
        posted = [RefreshToken (JStr ''R1'')], opened = [], responded = [], should_stop = False\<rparr> \<and>
   get_valid_token token_server configured [GET [(''code'', ascii ''good'')]] (holding ''R0'') =
     Returned (JStr ''A1'')
       \<lparr>token_file = Some [(''access_token'', JStr ''A1''), (''refresh_token'', JStr ''R1''),
                            (''expires_in'', JInt 3600), (''expires_at'', JInt 3600)],
        posted = [RefreshToken (JStr ''R0''), AuthorizationCode (ascii ''good'')],
        opened = [get_auth_url ''id''], responded = [Page200], should_stop = True\<rparr> \<and>
   get_valid_token expiry_only configured [] (holding ''R1'') =
     Blocked
       \<lparr>token_file = Some [(''expires_in'', JInt 60), (''refresh_token'', JStr ''R1''),
                            (''expires_at'', JInt 60)],
        posted = [RefreshToken (JStr ''R1'')],
        opened = [get_auth_url ''id''], responded = [], should_stop = False\<rparr>"
proof -
  have env: "SPOTIFY_CLIENT_ID configured = Some ''id''" "''id'' \<noteq> []"
    "SPOTIFY_CLIENT_SECRET configured = Some ''secret''" "''secret'' \<noteq> []"
    by (simp_all add: configured_def)
  have tok: "JStr r = py_or (os_getenv (SPOTIFY_REFRESH_TOKEN configured))
                        (dict_get (load_tokens (holding r)) ''refresh_token'')" for r
    by (simp add: configured_def holding_def fresh_world_def load_tokens_def dict_get_def py_or_def)
  have t: "truthy (JStr ''R1'')" "truthy (JStr ''R0'')"
    by simp_all
  have "get_valid_token token_server configured [GET [(''code'', ascii ''good'')]] (holding ''R1'') =
     Returned (JStr ''A2'')
       \<lparr>token_file = Some [(''access_token'', JStr ''A2''), (''expires_in'', JInt 3600),
                            (''refresh_token'', JStr ''R1''), (''expires_at'', JInt 3600)],
        posted = [RefreshToken (JStr ''R1'')], opened = [], responded = [], should_stop = False\<rparr>"
    using refresh_first[where env=configured and cid="''id''" and secret="''secret''"
      and w="holding ''R1''" and refresh_tok="JStr ''R1''" and endpoint=token_server and s=200
      and reason="ascii ''OK''"
      and new_tokens="[(''access_token'', JStr ''A2''), (''expires_in'', JInt 3600)]"
      and a="JStr ''A2''" and requests="[GET [(''code'', ascii ''good'')]]",
      OF env tok t(1), THEN conjunct1]
    by (simp add: holding_def fresh_world_def token_server_def raise_for_status_def
          dict_get_default_def Let_def)
  moreover
  have "get_valid_token token_server configured [GET [(''code'', ascii ''good'')]] (holding ''R0'') =
     Returned (JStr ''A1'')
       \<lparr>token_file = Some [(''access_token'', JStr ''A1''), (''refresh_token'', JStr ''R1''),
                            (''expires_in'', JInt 3600), (''expires_at'', JInt 3600)],
        posted = [RefreshToken (JStr ''R0''), AuthorizationCode (ascii ''good'')],
        opened = [get_auth_url ''id''], responded = [Page200], should_stop = True\<rparr>"
    using refresh_first[where env=configured and cid="''id''" and secret="''secret''"
      and w="holding ''R0''" and refresh_tok="JStr ''R0''" and endpoint=token_server
      and requests="[GET [(''code'', ascii ''good'')]]",
      OF env tok t(2), THEN conjunct2, THEN conjunct1]
    by (simp add: holding_def fresh_world_def token_server_def raise_for_status_def
          GET_def interactive_def start_auth_flow_def do_GET_def get_tokens_from_code_def
          post_token_def save_tokens_def print_tokens_def dict_get_default_def dict_get_def
          load_tokens_def Let_def)
  moreover
  have "get_valid_token expiry_only configured [] (holding ''R1'') =
     Blocked
       \<lparr>token_file = Some [(''expires_in'', JInt 60), (''refresh_token'', JStr ''R1''),
                            (''expires_at'', JInt 60)],
        posted = [RefreshToken (JStr ''R1'')],
        opened = [get_auth_url ''id''], responded = [], should_stop = False\<rparr>"
    using refresh_first[where env=configured and cid="''id''" and secret="''secret''"
      and w="holding ''R1''" and refresh_tok="JStr ''R1''" and endpoint=expiry_only and s=200
      and reason="ascii ''OK''" and new_tokens="[(''expires_in'', JInt 60)]"
      and requests="[]",
      OF env tok t(1), THEN conjunct2, THEN conjunct2, THEN conjunct1]
    by (simp add: holding_def fresh_world_def expiry_only_def raise_for_status_def
          interactive_def start_auth_flow_def dict_get_default_def Let_def)
  ultimately show ?thesis
    by (intro conjI)
qed

end
